theory Spec2Isabelle
  imports Complex_Main "HOL-Library.Word"
begin

section \<open>Data model of the Q-learning swarm controller\<close>

text \<open>
  The controller is the C++ class \<open>QSwarmController\<close>. Its member fields become one
  record; every member function becomes a function that takes the record and returns the
  updated one. A C++ \<open>int\<close> is a 32-bit word read through \<open>sint\<close> (comparisons are
  signed, \<open>++\<close> is addition on the word).
\<close>

type_synonym cint = "32 word"

subsection \<open>Single precision\<close>

text \<open>
  A \<open>float\<close> is modelled by the real number it denotes, plus and minus infinity by
  plus and minus \<open>2 ^ 128\<close>. Storing a value in a \<open>float\<close> rounds it to the nearest
  single-precision number, ties to the even significand (\<open>to_float\<close>): 24 significant
  bits, smallest exponent -126 (below it the spacing stays \<open>2 ^ -149\<close>), and a result of
  magnitude \<open>2 ^ 128\<close> or more is infinite. A \<open>float\<close> literal such as \<open>0.9f\<close> is
  \<open>to_float 0.9\<close>, and a \<open>float\<close> addition is the exact sum followed by \<open>to_float\<close>.
  The \<open>Real\<close> of the simulator's library (sensor values, positions, vector components)
  is idealised as \<open>real\<close>; a \<open>float\<close> converts to it without change.
\<close>

definition pow2 :: "int \<Rightarrow> real" where
  "pow2 k = (if 0 \<le> k then 2 ^ nat k else 1 / 2 ^ nat (- k))"

definition round_even :: "real \<Rightarrow> int" where
  "round_even q =
     (let f = \<lfloor>q\<rfloor>
      in if q - of_int f < 1 / 2 then f
         else if 1 / 2 < q - of_int f then f + 1
         else if even f then f else f + 1)"

definition to_float :: "real \<Rightarrow> real" where
  "to_float x =
     (if x = 0 then 0
      else
        let e = max (- 126) \<lfloor>log 2 \<bar>x\<bar>\<rfloor>;
            ulp = pow2 (e - 23);
            r = of_int (round_even (x / ulp)) * ulp
        in if 2 ^ 128 \<le> \<bar>r\<bar> then sgn x * 2 ^ 128 else r)"

text \<open>
  \<open>CVector2\<close> belongs to the simulator's library. Only the operations the controller
  uses are modelled, with their mathematical meaning: component access, difference and
  Euclidean length.
\<close>

record CVector2 =
  GetX :: real
  GetY :: real

definition vec_minus :: "CVector2 \<Rightarrow> CVector2 \<Rightarrow> CVector2" where
  "vec_minus a b = \<lparr>GetX = GetX a - GetX b, GetY = GetY a - GetY b\<rparr>"

definition Length :: "CVector2 \<Rightarrow> real" where
  "Length v = sqrt ((GetX v)\<^sup>2 + (GetY v)\<^sup>2)"

text \<open>
  What is inserted into a \<open>std::ostringstream\<close> is kept as the sequence of inserted
  items; the text the stream library produces for a number is not modelled.
\<close>

datatype item = Str string | IntVal cint | FloatVal real

text \<open>A call of \<open>send\<close> (with the buffer handed over) or of \<open>recv\<close> on the socket.\<close>

datatype io = Send "item list" | Recv

text \<open>The exceptions \<open>std::stoi\<close> throws.\<close>

datatype exn = invalid_argument | out_of_range

text \<open>
  The member fields, in the order of the header, followed by two logs that record the
  effects on the collaborators: the commands given to the wheel actuator and the calls
  made on the socket, oldest first.
\<close>

record controller =
  m_strRobotId :: string
  m_nRobotIdNum :: cint
  m_cGoalPosition :: CVector2
  m_nEpisode :: cint
  m_nSteps :: cint
  m_nMaxSteps :: cint
  m_nMaxEpisodes :: cint
  m_nSocket :: cint
  m_bConnected :: bool
  m_cPreviousPosition :: CVector2
  m_fVelocity :: real
  m_fCollisionThreshold :: real
  m_fGoalThreshold :: real
  m_bEpisodeDone :: bool
  m_fEpisodeReward :: real
  wheels :: "(real \<times> real) list"
  wire :: "io list"

text \<open>
  What the collaborators hand to the controller during one call from the host: the
  positioning sensor's reading, the proximity readings, the value \<open>rand()\<close> returns (a
  number from 0 to \<open>RAND_MAX\<close>), and the results of the socket calls: the return value
  of each \<open>send\<close>, and for each \<open>recv\<close> its return value with the bytes written into
  the buffer.
\<close>

record tick =
  Position :: CVector2
  Readings :: "real list"
  rand_value :: nat
  send_state :: int
  recv_action :: "int \<times> string"
  send_reward :: int
  recv_ack :: "int \<times> string"

text \<open>The state the constructor's initialiser list builds.\<close>

definition QSwarmController :: controller where
  "QSwarmController =
     \<lparr>m_strRobotId = [], m_nRobotIdNum = 0,
      m_cGoalPosition = \<lparr>GetX = 0, GetY = 0\<rparr>,
      m_nEpisode = 0, m_nSteps = 0, m_nMaxSteps = 500, m_nMaxEpisodes = 1000,
      m_nSocket = - 1, m_bConnected = False,
      m_cPreviousPosition = \<lparr>GetX = 0, GetY = 0\<rparr>,
      m_fVelocity = to_float 0.1, m_fCollisionThreshold = to_float 0.01,
      m_fGoalThreshold = to_float 0.5,
      m_bEpisodeDone = False, m_fEpisodeReward = 0,
      wheels = [], wire = []\<rparr>"

section \<open>String helpers of the C++ library\<close>

text \<open>\<open>std::string::find(ch)\<close>: the index of the first occurrence, if any.\<close>

fun find_char :: "string \<Rightarrow> char \<Rightarrow> nat option" where
  "find_char [] ch = None"
| "find_char (c # cs) ch =
     (if c = ch then Some 0 else map_option Suc (find_char cs ch))"

text \<open>\<open>std::string::find_last_of(set)\<close>: the index of the last character that is in the set.\<close>

fun find_last_of :: "string \<Rightarrow> string \<Rightarrow> nat option" where
  "find_last_of [] chars = None"
| "find_last_of (c # cs) chars =
     (case find_last_of cs chars of
        Some p \<Rightarrow> Some (Suc p)
      | None \<Rightarrow> (if c \<in> set chars then Some 0 else None))"

definition isspace :: "char \<Rightarrow> bool" where
  "isspace c = (c \<in> set [CHR 0x20, CHR 0x09, CHR 0x0A, CHR 0x0B, CHR 0x0C, CHR 0x0D])"

definition isdigit :: "char \<Rightarrow> bool" where
  "isdigit c = (c \<in> set ''0123456789'')"

definition digit_value :: "char \<Rightarrow> int" where
  "digit_value c = int (of_char c) - 48"

definition decimal :: "string \<Rightarrow> int" where
  "decimal ds = foldl (\<lambda>a c. 10 * a + digit_value c) 0 ds"

text \<open>
  \<open>std::stoi(str)\<close> in base 10: white space is skipped, an optional sign is read, then
  the longest run of digits; what follows is ignored. No digit: \<open>invalid_argument\<close>. A
  value that does not fit an \<open>int\<close>: \<open>out_of_range\<close>.
\<close>

definition stoi :: "string \<Rightarrow> exn + cint" where
  "stoi str =
     (let s1 = dropWhile isspace str;
          neg = (s1 \<noteq> [] \<and> hd s1 = CHR ''-'');
          s2 = (if s1 \<noteq> [] \<and> (hd s1 = CHR ''-'' \<or> hd s1 = CHR ''+'') then tl s1 else s1);
          ds = takeWhile isdigit s2;
          v = (if neg then - decimal ds else decimal ds)
      in if ds = [] then Inl invalid_argument
         else if v < - (2 ^ 31) \<or> 2 ^ 31 - 1 < v then Inl out_of_range
         else Inr (word_of_int v))"

section \<open>Transport\<close>

definition SendMessage :: "controller \<Rightarrow> int \<Rightarrow> item list \<Rightarrow> bool \<times> controller" where
  "SendMessage s sent message =
     (if sint (m_nSocket s) < 0 \<or> \<not> m_bConnected s then (False, s)
      else (0 < sent, s\<lparr>wire := wire s @ [Send (message @ [Str [CHR 0x0A]])]\<rparr>))"

text \<open>
  What \<open>ReceiveMessage\<close> makes of the result of \<open>recv\<close>: the bytes up to the first
  NUL, without one trailing newline; the empty string when nothing was received.
\<close>

definition received_message :: "int \<times> string \<Rightarrow> string" where
  "received_message r =
     (let received = fst r
      in if 0 < received then
           let msg = takeWhile (\<lambda>c. c \<noteq> CHR 0x00) (take (nat received) (snd r))
           in (if msg \<noteq> [] \<and> last msg = CHR 0x0A then butlast msg else msg)
         else [])"

definition ReceiveMessage :: "controller \<Rightarrow> int \<times> string \<Rightarrow> string \<times> controller" where
  "ReceiveMessage s r =
     (if sint (m_nSocket s) < 0 \<or> \<not> m_bConnected s then ([], s)
      else (received_message r, s\<lparr>wire := wire s @ [Recv]\<rparr>))"

section \<open>Sensing, action selection, actuation\<close>

definition SetLinearVelocity :: "real \<Rightarrow> real \<Rightarrow> controller \<Rightarrow> controller" where
  "SetLinearVelocity l r s = s\<lparr>wheels := wheels s @ [(l, r)]\<rparr>"

text \<open>The state vector is a vector of \<open>float\<close>: every component is rounded on entry.\<close>

definition GetState :: "controller \<Rightarrow> tick \<Rightarrow> real list" where
  "GetState s t =
     [to_float (GetX (Position t)), to_float (GetY (Position t)),
      to_float (GetX (m_cGoalPosition s)), to_float (GetY (m_cGoalPosition s))]
     @ map to_float (Readings t)"

definition state_message :: "controller \<Rightarrow> real list \<Rightarrow> item list" where
  "state_message s state =
     [Str ''STATE|'', IntVal (m_nRobotIdNum s)] @ concat (map (\<lambda>v. [Str ''|'', FloatVal v]) state)"

definition GetActionFromQNetwork ::
  "controller \<Rightarrow> tick \<Rightarrow> real list \<Rightarrow> exn + (cint \<times> controller)" where
  "GetActionFromQNetwork s t state =
     (if \<not> m_bConnected s then Inr (word_of_nat (rand_value t mod 4), s)
      else
        case SendMessage s (send_state t) (state_message s state) of
          (False, s1) \<Rightarrow> Inr (0, s1)
        | (True, s1) \<Rightarrow>
            (case ReceiveMessage s1 (recv_action t) of
               (response, s2) \<Rightarrow>
                 if response = [] then Inr (0, s2)
                 else
                   (case find_char response CHR ''|'' of
                      Some pos \<Rightarrow>
                        (case stoi (drop (pos + 1) response) of
                           Inl e \<Rightarrow> Inl e
                         | Inr action \<Rightarrow> Inr (action, s2))
                    | None \<Rightarrow> Inr (0, s2))))"

text \<open>
  Negating a \<open>float\<close> and halving it are exact (short of underflow), so the speeds need
  no rounding.
\<close>

definition ExecuteAction :: "controller \<Rightarrow> cint \<Rightarrow> controller" where
  "ExecuteAction s action =
     (let v = m_fVelocity s;
          speeds =
            (if action = 0 then (v, v)
             else if action = 1 then (- v * 0.5, v * 0.5)
             else if action = 2 then (v * 0.5, - v * 0.5)
             else if action = 3 then (0, 0)
             else (v, v))
      in SetLinearVelocity (fst speeds) (snd speeds) s)"

section \<open>Reward and termination\<close>

text \<open>The length is stored in a \<open>float\<close> before it is compared with the threshold.\<close>

definition ReachedGoal :: "controller \<Rightarrow> tick \<Rightarrow> bool" where
  "ReachedGoal s t =
     (let distance = to_float (Length (vec_minus (Position t) (m_cGoalPosition s)))
      in distance < m_fGoalThreshold s)"

text \<open>
  The loop over the proximity readings, which returns at the first close obstacle. A
  reading is a \<open>Real\<close>; it is compared with the \<open>float\<close> literal \<open>0.9f\<close>.
\<close>

fun close_obstacle :: "real list \<Rightarrow> bool" where
  "close_obstacle [] = False"
| "close_obstacle (r # rs) = (if to_float 0.9 < r then True else close_obstacle rs)"

definition DetectCollision :: "controller \<Rightarrow> tick \<Rightarrow> bool \<times> controller" where
  "DetectCollision s t =
     (let currentPos = Position t;
          distanceMoved = to_float (Length (vec_minus currentPos (m_cPreviousPosition s)));
          s' = s\<lparr>m_cPreviousPosition := currentPos\<rparr>
      in if distanceMoved < m_fCollisionThreshold s' then (True, s')
         else (close_obstacle (Readings t), s'))"

text \<open>
  The result is the returned reward, the \<open>done\<close> flag written through the reference, and
  the state. The rewards are the \<open>float\<close> literals \<open>10.0f\<close>, \<open>-5.0f\<close> (both exact) and
  \<open>-0.1f\<close>.
\<close>

definition CalculateReward :: "controller \<Rightarrow> tick \<Rightarrow> real \<times> bool \<times> controller" where
  "CalculateReward s t =
     (if ReachedGoal s t then (10, True, s)
      else
        case DetectCollision s t of
          (True, s') \<Rightarrow> (- 5, True, s')
        | (False, s') \<Rightarrow> (- to_float 0.1, False, s'))"

definition reward_message :: "controller \<Rightarrow> real \<Rightarrow> bool \<Rightarrow> item list" where
  "reward_message s reward done =
     [Str ''REWARD|'', IntVal (m_nRobotIdNum s), Str ''|'', FloatVal reward, Str ''|'',
      Str (if done then ''1'' else ''0'')]"

definition SendReward :: "controller \<Rightarrow> tick \<Rightarrow> real \<Rightarrow> bool \<Rightarrow> controller" where
  "SendReward s t reward done =
     (if \<not> m_bConnected s then s
      else
        let s1 = snd (SendMessage s (send_reward t) (reward_message s reward done))
        in snd (ReceiveMessage s1 (recv_ack t)))"

section \<open>Episode life cycle\<close>

definition ResetEpisode :: "controller \<Rightarrow> tick \<Rightarrow> controller" where
  "ResetEpisode s t =
     (let s1 = s\<lparr>m_nEpisode := m_nEpisode s + 1, m_nSteps := 0,
                 m_bEpisodeDone := False, m_fEpisodeReward := 0\<rparr>;
          s2 = SetLinearVelocity 0 0 s1
      in s2\<lparr>m_cPreviousPosition := \<lparr>GetX = GetX (Position t), GetY = GetY (Position t)\<rparr>\<rparr>)"

definition Reset :: "controller \<Rightarrow> tick \<Rightarrow> controller" where
  "Reset s t =
     (let s1 = s\<lparr>m_nEpisode := 0, m_nSteps := 0,
                 m_bEpisodeDone := False, m_fEpisodeReward := 0\<rparr>;
          s2 = SetLinearVelocity 0 0 s1
      in s2\<lparr>m_cPreviousPosition := \<lparr>GetX = GetX (Position t), GetY = GetY (Position t)\<rparr>\<rparr>)"

text \<open>
  One call of \<open>ControlStep\<close>. An exception thrown while the action reply is decoded
  leaves the function; it is the \<open>Inl\<close> result. The accumulated reward is a \<open>float\<close>:
  \<open>+=\<close> rounds the sum.
\<close>

definition ControlStep :: "controller \<Rightarrow> tick \<Rightarrow> exn + controller" where
  "ControlStep s t =
     (if sint (m_nMaxEpisodes s) \<le> sint (m_nEpisode s) then Inr (SetLinearVelocity 0 0 s)
      else if m_bEpisodeDone s then Inr (ResetEpisode s t)
      else
        let s1 = s\<lparr>m_nSteps := m_nSteps s + 1\<rparr>;
            state = GetState s1 t
        in case GetActionFromQNetwork s1 t state of
             Inl e \<Rightarrow> Inl e
           | Inr (action, s2) \<Rightarrow>
               (let s3 = ExecuteAction s2 action
                in case CalculateReward s3 t of
                     (reward, done, s4) \<Rightarrow>
                       let s5 = s4\<lparr>m_fEpisodeReward := to_float (m_fEpisodeReward s4 + reward)\<rparr>;
                           s6 = SendReward s5 t reward done
                       in if done \<or> sint (m_nMaxSteps s6) \<le> sint (m_nSteps s6)
                          then Inr (s6\<lparr>m_bEpisodeDone := True\<rparr>)
                          else Inr s6))"

section \<open>Initialisation\<close>

text \<open>
  The connection attempt: the value \<open>socket\<close> returns and, for each call of
  \<open>connect\<close> in turn (counted from 0), the value it returns. The pause between two
  attempts is not modelled.
\<close>

record connection =
  socket_ret :: cint
  connect_ret :: "nat \<Rightarrow> int"

text \<open>The retry loop, entered with attempt number \<open>i\<close> and the number of attempts left.\<close>

fun connect_retry :: "controller \<Rightarrow> (nat \<Rightarrow> int) \<Rightarrow> nat \<Rightarrow> nat \<Rightarrow> bool \<times> controller" where
  "connect_retry s rets i 0 = (False, s)"
| "connect_retry s rets i (Suc left) =
     (if rets i = 0 then (True, s\<lparr>m_bConnected := True\<rparr>)
      else connect_retry s rets (Suc i) left)"

definition ConnectToQNetwork :: "controller \<Rightarrow> connection \<Rightarrow> bool \<times> controller" where
  "ConnectToQNetwork s c =
     (let s1 = s\<lparr>m_nSocket := socket_ret c\<rparr>
      in if sint (m_nSocket s1) < 0 then (False, s1)
         else connect_retry s1 (connect_ret c) 0 10)"

text \<open>
  The attributes of the configuration node, as numbers, read by the simulator's
  \<open>GetNodeAttributeOrDefault\<close>: an absent attribute keeps the default. The velocity is
  read into a \<open>float\<close>.
\<close>

record config =
  goal_x :: "real option"
  goal_y :: "real option"
  velocity :: "real option"
  max_steps :: "cint option"
  max_episodes :: "cint option"

text \<open>The first statements of \<open>Init\<close>: the numeric id is read off the robot's name.\<close>

definition robot_id :: "controller \<Rightarrow> string \<Rightarrow> exn + controller" where
  "robot_id s name =
     (let s1 = s\<lparr>m_strRobotId := name\<rparr>
      in case find_last_of (m_strRobotId s1) ''0123456789'' of
           Some pos \<Rightarrow>
             (case stoi (drop pos (m_strRobotId s1)) of
                Inl e \<Rightarrow> Inl e
              | Inr n \<Rightarrow> Inr (s1\<lparr>m_nRobotIdNum := n\<rparr>))
         | None \<Rightarrow> Inr s1)"

text \<open>
  A goal coordinate. The call passes \<open>SetX(18.0f)\<close> as the buffer and \<open>GetX()\<close> as the
  default in one argument list. The library's \<open>SetX\<close> is not in the source; it is taken
  to return a reference to the component it has just set to 18, as the call needs. The
  language leaves open which argument is evaluated first: when \<open>GetX()\<close> comes first
  (\<open>default_first\<close>) the default is the old value of the component, otherwise it is 18.
  An attribute that is present overwrites the component.
\<close>

definition goal_component :: "bool \<Rightarrow> real option \<Rightarrow> real \<Rightarrow> real" where
  "goal_component default_first attr old =
     (case attr of Some v \<Rightarrow> v | None \<Rightarrow> (if default_first then old else 18))"

definition Init ::
  "controller \<Rightarrow> string \<Rightarrow> config \<Rightarrow> bool \<Rightarrow> tick \<Rightarrow> connection \<Rightarrow> exn + controller" where
  "Init s name cfg default_first t c =
     (case robot_id s name of
        Inl e \<Rightarrow> Inl e
      | Inr s1 \<Rightarrow>
          let s2 = s1\<lparr>m_cGoalPosition :=
                        \<lparr>GetX = goal_component default_first (goal_x cfg)
                                  (GetX (m_cGoalPosition s1)),
                         GetY = goal_component default_first (goal_y cfg)
                                  (GetY (m_cGoalPosition s1))\<rparr>\<rparr>;
              s3 = s2\<lparr>m_fVelocity :=
                        (case velocity cfg of Some v \<Rightarrow> to_float v | None \<Rightarrow> m_fVelocity s2),
                      m_nMaxSteps := (case max_steps cfg of Some n \<Rightarrow> n | None \<Rightarrow> m_nMaxSteps s2),
                      m_nMaxEpisodes :=
                        (case max_episodes cfg of Some n \<Rightarrow> n | None \<Rightarrow> m_nMaxEpisodes s2)\<rparr>;
              s4 = s3\<lparr>m_cPreviousPosition :=
                        \<lparr>GetX = GetX (Position t), GetY = GetY (Position t)\<rparr>\<rparr>
          in Inr (snd (ConnectToQNetwork s4 c)))"

text \<open>Calls of \<open>ControlStep\<close> in a row, one per tick; an exception ends the run.\<close>

fun ticks :: "controller \<Rightarrow> tick list \<Rightarrow> exn + controller" where
  "ticks s [] = Inr s"
| "ticks s (t # ts) =
     (case ControlStep s t of Inl e \<Rightarrow> Inl e | Inr s' \<Rightarrow> ticks s' ts)"

text \<open>
  A tick is quiet when the evaluation finds neither the goal nor a collision. A run of
  ticks is quiet when each tick is, in the state the ticks before it have left.
\<close>

definition quiet :: "controller \<Rightarrow> tick \<Rightarrow> bool" where
  "quiet s t = (\<not> ReachedGoal s t \<and> \<not> fst (DetectCollision s t))"

fun quiet_ticks :: "controller \<Rightarrow> tick list \<Rightarrow> bool" where
  "quiet_ticks s [] = True"
| "quiet_ticks s (t # ts) =
     (quiet s t \<and> (case ControlStep s t of Inl e \<Rightarrow> True | Inr s' \<Rightarrow> quiet_ticks s' ts))"

text \<open>
  The accumulated reward after \<open>n\<close> further ticks that each add the step penalty
  \<open>-0.1f\<close> to the \<open>float\<close> value \<open>a\<close>.
\<close>

fun add_penalties :: "real \<Rightarrow> nat \<Rightarrow> real" where
  "add_penalties a 0 = a"
| "add_penalties a (Suc n) = add_penalties (to_float (a + - to_float 0.1)) n"

text \<open>
  A socket call carries the id \<open>n\<close> when it is a \<open>recv\<close>, or a \<open>send\<close> of a message
  whose second item is the integer \<open>n\<close>, after a leading text item.
\<close>

fun tagged :: "cint \<Rightarrow> io \<Rightarrow> bool" where
  "tagged n (Send (Str h # IntVal k # rest)) = (k = n)"
| "tagged n (Send m) = False"
| "tagged n Recv = True"

section \<open>Concrete inputs\<close>

text \<open>
  A robot after construction with goal (18, 18), never connected; the same robot with an
  open connection; and a tick with a given position and proximity readings on which
  every socket call fails.
\<close>

definition fb :: controller where
  "fb = QSwarmController\<lparr>m_strRobotId := ''fb3'', m_nRobotIdNum := 3,
          m_cGoalPosition := \<lparr>GetX = 18, GetY = 18\<rparr>\<rparr>"

definition fb_online :: controller where
  "fb_online = fb\<lparr>m_nSocket := 5, m_bConnected := True\<rparr>"

definition sensed :: "real \<Rightarrow> real \<Rightarrow> real list \<Rightarrow> tick" where
  "sensed px py rs =
     \<lparr>Position = \<lparr>GetX = px, GetY = py\<rparr>, Readings = rs, rand_value = 6,
      send_state = 0, recv_action = (0, []), send_reward = 0, recv_ack = (0, [])\<rparr>"

text \<open>A tick on which the peer answers the state message with the given line.\<close>

definition answered :: "real \<Rightarrow> real \<Rightarrow> real list \<Rightarrow> string \<Rightarrow> tick" where
  "answered px py rs line =
     (sensed px py rs)\<lparr>send_state := 1, recv_action := (int (length line) + 1, line @ [CHR 0x0A]),
                       send_reward := 1, recv_ack := (3, ''OK'' @ [CHR 0x0A])\<rparr>"

text \<open>
  The ticks of a walk along the x axis, one unit per tick, that starts at \<open>(k, 0)\<close>: no
  obstacle in sight and every socket call failing.
\<close>

fun walk :: "nat \<Rightarrow> nat \<Rightarrow> tick list" where
  "walk k 0 = []"
| "walk k (Suc n) = sensed (real (Suc k)) 0 [] # walk (Suc k) n"

lemmas examples = fb_def fb_online_def sensed_def answered_def QSwarmController_def

section \<open>Facts about single precision\<close>

lemma pow2_powr: "pow2 k = 2 powr (of_int k)"
  by (simp add: pow2_def powr_int)

lemma pow2_pos: "0 < pow2 k" by (simp add: pow2_def)

lemma pow2_add: "pow2 (j + k) = pow2 j * pow2 k"
  by (simp add: pow2_powr powr_add)

lemma pow2_mono: "j \<le> k \<Longrightarrow> pow2 j \<le> pow2 k"
  by (simp add: pow2_powr)

lemma floor_log2: 
  assumes "pow2 e \<le> \<bar>x\<bar>" "\<bar>x\<bar> < pow2 (e + 1)"
  shows "\<lfloor>log 2 \<bar>x\<bar>\<rfloor> = e"
proof -
  have "0 < \<bar>x\<bar>" using assms(1) pow2_pos [of e] by linarith
  then show ?thesis using assms floor_log_eq_powr_iff [of "\<bar>x\<bar>" 2 e] by (simp add: pow2_powr)
qed

lemma round_even_ge_floor: "\<lfloor>q\<rfloor> \<le> round_even q"
  by (simp add: round_even_def Let_def)

lemma round_even_le_ceiling: "round_even q \<le> \<lfloor>q\<rfloor> + 1"
  by (simp add: round_even_def Let_def)

lemma to_float_eval:
  assumes "pow2 e \<le> \<bar>x\<bar>" "\<bar>x\<bar> < pow2 (e + 1)" "- 126 \<le> e" "e \<le> 23"
  shows "to_float x = of_int (round_even (x * 2 ^ nat (23 - e))) / 2 ^ nat (23 - e)"
proof -
  have x: "x \<noteq> 0" using assms(1) pow2_pos [of e] by auto
  have e: "max (- 126) \<lfloor>log 2 \<bar>x\<bar>\<rfloor> = e" using floor_log2 [OF assms(1,2)] assms(3) by simp
  have u: "pow2 (e - 23) = 1 / 2 ^ nat (23 - e)"
    using assms(4) by (cases "e = 23") (simp_all add: pow2_def)
  let ?n = "nat (23 - e)"
  let ?q = "x * 2 ^ ?n"
  have pn: "2 ^ ?n = pow2 (23 - e)" using assms(4) by (simp add: pow2_def)
  have q: "\<bar>?q\<bar> < 2 ^ 24"
  proof -
    have "\<bar>?q\<bar> = \<bar>x\<bar> * pow2 (23 - e)" by (simp add: abs_mult pn abs_of_pos pow2_pos)
    also have "\<dots> < pow2 (e + 1) * pow2 (23 - e)" using assms(2) pow2_pos [of "23 - e"] by simp
    also have "\<dots> = pow2 24" by (simp flip: pow2_add)
    also have "\<dots> = 2 ^ 24" by (simp add: pow2_def)
    finally show ?thesis .
  qed
  have "\<lfloor>?q\<rfloor> \<le> round_even ?q" "round_even ?q \<le> \<lfloor>?q\<rfloor> + 1"
    by (rule round_even_ge_floor, rule round_even_le_ceiling)
  moreover have "- (2 ^ 24) \<le> \<lfloor>?q\<rfloor>" "\<lfloor>?q\<rfloor> < 2 ^ 24"
    using q by (simp_all add: le_floor_iff floor_less_iff abs_less_iff)
  ultimately have b: "\<bar>round_even ?q\<bar> \<le> 2 ^ 24" by linarith
  have "\<bar>of_int (round_even ?q) / 2 ^ ?n :: real\<bar> \<le> 2 ^ 24"
  proof -
    have "\<bar>of_int (round_even ?q) / 2 ^ ?n :: real\<bar> = of_int \<bar>round_even ?q\<bar> / 2 ^ ?n"
      by simp
    also have "\<dots> \<le> of_int \<bar>round_even ?q\<bar>"
      by (simp add: divide_le_eq mult_le_cancel_left1)
    also have "\<dots> \<le> 2 ^ 24" using b by (metis of_int_le_iff of_int_numeral of_int_power)
    finally show ?thesis .
  qed
  then have "\<not> 2 ^ 128 \<le> \<bar>of_int (round_even ?q) / 2 ^ ?n :: real\<bar>" by simp
  then show ?thesis using x by (simp add: to_float_def e u Let_def)
qed

lemma to_float_ge:
  assumes "- 126 \<le> k" "k \<le> 127" "pow2 k \<le> x"
  shows "pow2 k \<le> to_float x"
proof -
  have xp: "0 < x" using assms(3) pow2_pos [of k] by linarith
  define e where "e = \<lfloor>log 2 x\<rfloor>"
  have ex: "pow2 e \<le> x" "x < pow2 (e + 1)"
    using xp floor_log_eq_powr_iff [of x 2 e] by (simp_all add: e_def pow2_powr)
  have "pow2 k < pow2 (e + 1)" using assms(3) ex(2) by linarith
  then have ke: "k \<le> e" by (simp add: pow2_powr)
  then have em: "max (- 126) \<lfloor>log 2 x\<rfloor> = e" using assms(1) by (simp add: e_def)
  let ?u = "pow2 (e - 23)"
  have up: "0 < ?u" by (rule pow2_pos)
  have "pow2 e = 2 ^ 23 * ?u"
  proof -
    have "pow2 e = pow2 (23 + (e - 23))" by simp
    also have "\<dots> = pow2 23 * ?u" by (rule pow2_add)
    finally show ?thesis by (simp add: pow2_def)
  qed
  then have "2 ^ 23 * ?u \<le> x" using ex(1) by simp
  then have "2 ^ 23 \<le> x / ?u" using up by (simp add: le_divide_eq)
  then have "2 ^ 23 \<le> \<lfloor>x / ?u\<rfloor>" by (simp add: le_floor_iff)
  then have "2 ^ 23 \<le> round_even (x / ?u)" using round_even_ge_floor [of "x / ?u"] by linarith
  then have "(2 ^ 23 :: real) \<le> of_int (round_even (x / ?u))"
    by (metis of_int_le_iff of_int_numeral of_int_power)
  then have "2 ^ 23 * ?u \<le> of_int (round_even (x / ?u)) * ?u"
    using up by (simp add: mult_le_cancel_right)
  then have r: "pow2 k \<le> of_int (round_even (x / ?u)) * ?u"
    using \<open>pow2 e = 2 ^ 23 * ?u\<close> pow2_mono [OF ke] by linarith
  have "pow2 k \<le> pow2 128" using assms(2) by (intro pow2_mono) simp
  then have inf: "pow2 k \<le> 2 ^ 128" by (simp add: pow2_def)
  show ?thesis
    using xp r inf by (simp add: to_float_def em Let_def)
qed

text \<open>The literals of the source, and the default thresholds.\<close>

lemma float_literals:
  "to_float 0.1 = 13421773 / 134217728" "to_float 0.9 = 7549747 / 8388608"
  "to_float 0.01 = 5368709 / 536870912" "to_float 0.5 = 1 / 2"
proof -
  show "to_float 0.1 = 13421773 / 134217728"
    by (subst to_float_eval [where e = "- 4"]) (simp_all add: pow2_def round_even_def)
  show "to_float 0.9 = 7549747 / 8388608"
    by (subst to_float_eval [where e = "- 1"]) (simp_all add: pow2_def round_even_def)
  show "to_float 0.01 = 5368709 / 536870912"
    by (subst to_float_eval [where e = "- 7"]) (simp_all add: pow2_def round_even_def)
  show "to_float 0.5 = 1 / 2"
    by (subst to_float_eval [where e = "- 1"]) (simp_all add: pow2_def round_even_def)
qed

section \<open>Facts about words, lengths and single functions\<close>

lemma sint_small_iff:
  "(sint (a::cint) = 0) = (a = 0)" "(sint a = 1) = (a = 1)"
  "(sint a = 2) = (a = 2)" "(sint a = 3) = (a = 3)"
  using word_eq_iff_signed [where 'a=int, of a 0] word_eq_iff_signed [where 'a=int, of a 1]
    word_eq_iff_signed [where 'a=int, of a 2] word_eq_iff_signed [where 'a=int, of a 3]
  by simp_all

lemma sint_succ:
  assumes "sint (a::cint) < sint (b::cint)"
  shows "sint (a + 1) = sint a + 1"
proof -
  have "sint b < 2 ^ 31" using sint_lt [of b] by simp
  moreover have "- (2 ^ 31) \<le> sint a" using sint_ge [of a] by simp
  ultimately have "signed_take_bit 31 (sint a + 1) = sint a + 1"
    using assms by (intro signed_take_bit_int_eq_self) simp_all
  then show ?thesis by (simp add: sint_word_ariths)
qed

lemma close_obstacle_iff: "close_obstacle rs = (\<exists>r \<in> set rs. to_float 0.9 < r)"
  by (induction rs) auto

lemma Length_ge_iff: "0 \<le> c \<Longrightarrow> (c \<le> Length v) = (c\<^sup>2 \<le> (GetX v)\<^sup>2 + (GetY v)\<^sup>2)"
proof -
  assume c: "0 \<le> c"
  have "sqrt (c\<^sup>2) \<le> sqrt ((GetX v)\<^sup>2 + (GetY v)\<^sup>2) \<longleftrightarrow> c\<^sup>2 \<le> (GetX v)\<^sup>2 + (GetY v)\<^sup>2"
    by (rule real_sqrt_le_iff)
  then show ?thesis using c by (simp add: Length_def)
qed

lemma Length_axis: "Length \<lparr>GetX = a, GetY = 0\<rparr> = \<bar>a\<bar>"
  by (simp add: Length_def)

text \<open>
  Rounding does not cross a power of two, so a distance of at least 1/2, or of at least
  1/64, stays so when it is stored in a \<open>float\<close>.
\<close>

lemma far_from_goal:
  assumes "m_fGoalThreshold s \<le> 1 / 2"
    and "1 / 4 \<le> (GetX (Position t) - GetX (m_cGoalPosition s))\<^sup>2
                  + (GetY (Position t) - GetY (m_cGoalPosition s))\<^sup>2"
  shows "\<not> ReachedGoal s t"
proof -
  have "1 / 2 \<le> Length (vec_minus (Position t) (m_cGoalPosition s))"
    using assms(2) by (subst Length_ge_iff) (simp_all add: vec_minus_def power2_eq_square)
  then have "pow2 (- 1) \<le> Length (vec_minus (Position t) (m_cGoalPosition s))"
    by (simp add: pow2_def)
  then have "pow2 (- 1) \<le> to_float (Length (vec_minus (Position t) (m_cGoalPosition s)))"
    by (intro to_float_ge) simp_all
  then show ?thesis using assms(1) by (simp add: ReachedGoal_def pow2_def)
qed

lemma moved_enough:
  assumes "m_fCollisionThreshold s \<le> 1 / 64"
    and "1 / 4096 \<le> (GetX (Position t) - GetX (m_cPreviousPosition s))\<^sup>2
                     + (GetY (Position t) - GetY (m_cPreviousPosition s))\<^sup>2"
  shows "fst (DetectCollision s t) = close_obstacle (Readings t)"
proof -
  have "1 / 64 \<le> Length (vec_minus (Position t) (m_cPreviousPosition s))"
    using assms(2) by (subst Length_ge_iff) (simp_all add: vec_minus_def power2_eq_square)
  then have "pow2 (- 6) \<le> Length (vec_minus (Position t) (m_cPreviousPosition s))"
    by (simp add: pow2_def)
  then have "pow2 (- 6) \<le> to_float (Length (vec_minus (Position t) (m_cPreviousPosition s)))"
    by (intro to_float_ge) simp_all
  then show ?thesis using assms(1) by (simp add: DetectCollision_def Let_def pow2_def)
qed

lemma CalculateReward_alt:
  "CalculateReward s t =
     (if ReachedGoal s t then (10, True, s)
      else if fst (DetectCollision s t) then (- 5, True, s\<lparr>m_cPreviousPosition := Position t\<rparr>)
      else (- to_float 0.1, False, s\<lparr>m_cPreviousPosition := Position t\<rparr>))"
  by (simp add: CalculateReward_def DetectCollision_def Let_def split: bool.splits)

lemma CalculateReward_state:
  "snd (snd (CalculateReward s t)) =
     (if ReachedGoal s t then s else s\<lparr>m_cPreviousPosition := Position t\<rparr>)"
  by (simp add: CalculateReward_alt)

lemma CalculateReward_frame:
  "fst (CalculateReward (s\<lparr>m_nSteps := n, wheels := wh, wire := w\<rparr>) t) = fst (CalculateReward s t)"
  "fst (snd (CalculateReward (s\<lparr>m_nSteps := n, wheels := wh, wire := w\<rparr>) t))
     = fst (snd (CalculateReward s t))"
  by (simp_all add: CalculateReward_def ReachedGoal_def DetectCollision_def Let_def
        split: bool.splits)

lemma GetAction_wire:
  "GetActionFromQNetwork s t st = Inr (a, s2) \<Longrightarrow> s2 = s\<lparr>wire := wire s2\<rparr>"
  by (auto simp: GetActionFromQNetwork_def SendMessage_def ReceiveMessage_def
           split: if_splits option.splits sum.splits prod.splits bool.splits)

lemma SendReward_wire: "SendReward s t r d = s\<lparr>wire := wire (SendReward s t r d)\<rparr>"
  by (simp add: SendReward_def SendMessage_def ReceiveMessage_def Let_def)

lemma ExecuteAction_wheels:
  "ExecuteAction s a = s\<lparr>wheels := wheels (ExecuteAction s a)\<rparr>"
  by (simp add: ExecuteAction_def SetLinearVelocity_def Let_def)

lemma ExecuteAction_frame:
  "wheels (ExecuteAction (s\<lparr>m_nSteps := n, wire := w\<rparr>) a) = wheels (ExecuteAction s a)"
  by (simp add: ExecuteAction_def SetLinearVelocity_def Let_def)

lemma SendReward_wire_frame:
  "wire (SendReward (s\<lparr>m_nSteps := n, wheels := wh, m_cPreviousPosition := p, m_fEpisodeReward := r'\<rparr>) t r d)
     = wire (SendReward s t r d)"
  by (simp add: SendReward_def SendMessage_def ReceiveMessage_def reward_message_def Let_def)

section \<open>The three branches of a control step\<close>

lemma ControlStep_finished:
  "sint (m_nMaxEpisodes s) \<le> sint (m_nEpisode s) \<Longrightarrow>
   ControlStep s t = Inr (s\<lparr>wheels := wheels s @ [(0, 0)]\<rparr>)"
  by (simp add: ControlStep_def SetLinearVelocity_def)

lemma ControlStep_reset:
  "sint (m_nEpisode s) < sint (m_nMaxEpisodes s) \<Longrightarrow> m_bEpisodeDone s \<Longrightarrow>
   ControlStep s t =
     Inr (s\<lparr>m_nEpisode := m_nEpisode s + 1, m_nSteps := 0, m_bEpisodeDone := False,
            m_fEpisodeReward := 0, wheels := wheels s @ [(0, 0)],
            m_cPreviousPosition := Position t\<rparr>)"
  by (simp add: ControlStep_def ResetEpisode_def SetLinearVelocity_def Let_def)

lemma ControlStep_running:
  assumes "sint (m_nEpisode s) < sint (m_nMaxEpisodes s)" "\<not> m_bEpisodeDone s"
    and "GetActionFromQNetwork (s\<lparr>m_nSteps := m_nSteps s + 1\<rparr>) t (GetState s t) = Inr (a, s2)"
  shows "ControlStep s t =
     Inr (s\<lparr>m_nSteps := m_nSteps s + 1,
            wheels := wheels (ExecuteAction s a),
            m_cPreviousPosition := (if ReachedGoal s t then m_cPreviousPosition s else Position t),
            m_fEpisodeReward := to_float (m_fEpisodeReward s + fst (CalculateReward s t)),
            m_bEpisodeDone :=
              (fst (snd (CalculateReward s t)) \<or> sint (m_nMaxSteps s) \<le> sint (m_nSteps s + 1)),
            wire := wire (SendReward (s\<lparr>wire := wire s2\<rparr>) t
                            (fst (CalculateReward s t)) (fst (snd (CalculateReward s t))))\<rparr>)"
proof -
  let ?s1 = "s\<lparr>m_nSteps := m_nSteps s + 1\<rparr>"
  let ?wh = "wheels (ExecuteAction s a)"
  let ?r = "fst (CalculateReward s t)"
  let ?d = "fst (snd (CalculateReward s t))"
  let ?p = "if ReachedGoal s t then m_cPreviousPosition s else Position t"
  have st: "GetState ?s1 t = GetState s t" by (simp add: GetState_def)
  have s2: "s2 = ?s1\<lparr>wire := wire s2\<rparr>" using GetAction_wire [OF assms(3)] .
  let ?s3 = "ExecuteAction s2 a"
  have "wheels ?s3 = ?wh"
    by (subst s2) (simp add: ExecuteAction_def SetLinearVelocity_def Let_def)
  then have s3: "?s3 = s\<lparr>m_nSteps := m_nSteps s + 1, wheels := ?wh, wire := wire s2\<rparr>"
    by (subst ExecuteAction_wheels, subst (2) s2) simp
  obtain reward don s4 where cr: "CalculateReward ?s3 t = (reward, don, s4)"
    by (cases "CalculateReward ?s3 t") auto
  have r: "reward = ?r" and d: "don = ?d"
    using cr CalculateReward_frame [where s=s and n="m_nSteps s + 1" and wh="?wh"
        and w="wire s2" and t=t]
    by (simp_all add: s3)
  have rg: "ReachedGoal ?s3 t = ReachedGoal s t" by (simp add: s3 ReachedGoal_def)
  have s4: "s4 = s\<lparr>m_nSteps := m_nSteps s + 1, wheels := ?wh, m_cPreviousPosition := ?p,
                    wire := wire s2\<rparr>"
    using CalculateReward_state [of ?s3 t] cr rg by (simp add: s3)
  let ?s5 = "s4\<lparr>m_fEpisodeReward := to_float (m_fEpisodeReward s4 + reward)\<rparr>"
  have s5: "?s5 = (s\<lparr>wire := wire s2\<rparr>)\<lparr>m_nSteps := m_nSteps s + 1, wheels := ?wh,
                     m_cPreviousPosition := ?p,
                     m_fEpisodeReward := to_float (m_fEpisodeReward s + ?r)\<rparr>"
    by (simp add: s4 r)
  have w: "wire (SendReward ?s5 t reward don) = wire (SendReward (s\<lparr>wire := wire s2\<rparr>) t ?r ?d)"
    by (subst s5, subst SendReward_wire_frame) (simp add: r d)
  have s6: "SendReward ?s5 t reward don
              = ?s5\<lparr>wire := wire (SendReward (s\<lparr>wire := wire s2\<rparr>) t ?r ?d)\<rparr>"
    using SendReward_wire [of ?s5 t reward don] w by simp
  have cs: "ControlStep s t =
      (if don \<or> sint (m_nMaxSteps (SendReward ?s5 t reward don))
                  \<le> sint (m_nSteps (SendReward ?s5 t reward don))
       then Inr ((SendReward ?s5 t reward don)\<lparr>m_bEpisodeDone := True\<rparr>)
       else Inr (SendReward ?s5 t reward don))"
    using assms by (simp add: ControlStep_def st cr Let_def)
  show ?thesis
    unfolding cs s6 using assms(2) by (simp add: s4 r d)
qed

lemma ControlStep_running_action:
  assumes "sint (m_nEpisode s) < sint (m_nMaxEpisodes s)" "\<not> m_bEpisodeDone s"
    and "ControlStep s t = Inr s'"
  shows "\<exists>a s2. GetActionFromQNetwork (s\<lparr>m_nSteps := m_nSteps s + 1\<rparr>) t (GetState s t)
                  = Inr (a, s2)"
proof (cases "GetActionFromQNetwork (s\<lparr>m_nSteps := m_nSteps s + 1\<rparr>) t (GetState s t)")
  case (Inl e)
  then have "ControlStep s t = Inl e"
    using assms(1,2) by (simp add: ControlStep_def GetState_def Let_def)
  with assms(3) show ?thesis by simp
next
  case (Inr p)
  then show ?thesis by (cases p) simp
qed

section \<open>Runs of ticks\<close>

lemma ticks_append:
  "ticks s (xs @ ys) = (case ticks s xs of Inl e \<Rightarrow> Inl e | Inr s' \<Rightarrow> ticks s' ys)"
  by (induction xs arbitrary: s) (auto split: sum.splits)

lemma quiet_ticks_append:
  "quiet_ticks s (xs @ ys) =
     (quiet_ticks s xs \<and> (case ticks s xs of Inl e \<Rightarrow> True | Inr s' \<Rightarrow> quiet_ticks s' ys))"
  by (induction xs arbitrary: s) (auto split: sum.splits)

lemma quiet_reward:
  "quiet s t \<Longrightarrow>
   fst (CalculateReward s t) = - to_float 0.1 \<and> \<not> fst (snd (CalculateReward s t))"
  by (simp add: quiet_def CalculateReward_alt)

lemma quiet_step:
  assumes run: "sint (m_nEpisode s) < sint (m_nMaxEpisodes s)" "\<not> m_bEpisodeDone s"
    and q: "quiet s t" and cs: "ControlStep s t = Inr s'"
  shows "m_nSteps s' = m_nSteps s + 1
         \<and> m_fEpisodeReward s' = to_float (m_fEpisodeReward s + - to_float 0.1)
         \<and> m_bEpisodeDone s' = (sint (m_nMaxSteps s) \<le> sint (m_nSteps s + 1))
         \<and> m_nEpisode s' = m_nEpisode s \<and> m_nMaxEpisodes s' = m_nMaxEpisodes s
         \<and> m_nMaxSteps s' = m_nMaxSteps s"
proof -
  obtain a s2 where
    "GetActionFromQNetwork (s\<lparr>m_nSteps := m_nSteps s + 1\<rparr>) t (GetState s t) = Inr (a, s2)"
    using ControlStep_running_action [OF run cs] by blast
  from ControlStep_running [OF run this] cs quiet_reward [OF q] show ?thesis by auto
qed

lemma quiet_prefix:
  assumes "sint (m_nEpisode s) < sint (m_nMaxEpisodes s)" "\<not> m_bEpisodeDone s"
    and "quiet_ticks s ts" "ticks s ts = Inr s'"
    and "0 \<le> sint (m_nSteps s)" "sint (m_nSteps s) + int (length ts) < sint (m_nMaxSteps s)"
  shows "\<not> m_bEpisodeDone s' \<and> sint (m_nSteps s') = sint (m_nSteps s) + int (length ts)
         \<and> m_fEpisodeReward s' = add_penalties (m_fEpisodeReward s) (length ts)
         \<and> m_nEpisode s' = m_nEpisode s \<and> m_nMaxEpisodes s' = m_nMaxEpisodes s
         \<and> m_nMaxSteps s' = m_nMaxSteps s"
  using assms
proof (induction ts arbitrary: s)
  case Nil
  then show ?case by simp
next
  case (Cons t ts)
  from Cons.prems(4) obtain s1 where cs: "ControlStep s t = Inr s1" and rest: "ticks s1 ts = Inr s'"
    by (auto split: sum.splits)
  from Cons.prems(3) cs have q: "quiet s t" and qs: "quiet_ticks s1 ts" by auto
  note st = quiet_step [OF Cons.prems(1,2) q cs]
  have lt: "sint (m_nSteps s) < sint (m_nMaxSteps s)" using Cons.prems(6) by simp
  have suc: "sint (m_nSteps s + 1) = sint (m_nSteps s) + 1" using sint_succ [OF lt] .
  have "\<not> m_bEpisodeDone s1" using st suc Cons.prems(6) by simp
  moreover have "sint (m_nEpisode s1) < sint (m_nMaxEpisodes s1)" using st Cons.prems(1) by simp
  moreover have "0 \<le> sint (m_nSteps s1)" using st suc Cons.prems(5) by simp
  moreover have "sint (m_nSteps s1) + int (length ts) < sint (m_nMaxSteps s1)"
    using st suc Cons.prems(6) by simp
  ultimately have IH: "\<not> m_bEpisodeDone s' \<and> sint (m_nSteps s') = sint (m_nSteps s1) + int (length ts)
         \<and> m_fEpisodeReward s' = add_penalties (m_fEpisodeReward s1) (length ts)
         \<and> m_nEpisode s' = m_nEpisode s1 \<and> m_nMaxEpisodes s' = m_nMaxEpisodes s1
         \<and> m_nMaxSteps s' = m_nMaxSteps s1"
    using Cons.IH [of s1] qs rest by blast
  show ?case using IH st suc by simp
qed

lemma add_penalties_last:
  "add_penalties a (Suc n) = to_float (add_penalties a n + - to_float 0.1)"
  by (induction n arbitrary: a) simp_all

lemma ticks_take:
  "ticks s ts = Inr s' \<Longrightarrow> \<exists>sk. ticks s (take k ts) = Inr sk"
proof -
  assume "ticks s ts = Inr s'"
  then have "ticks s (take k ts @ drop k ts) = Inr s'" by simp
  then show ?thesis unfolding ticks_append by (auto split: sum.splits)
qed

lemma quiet_ticks_take: "quiet_ticks s ts \<Longrightarrow> quiet_ticks s (take k ts)"
proof -
  assume "quiet_ticks s ts"
  then have "quiet_ticks s (take k ts @ drop k ts)" by simp
  then show ?thesis unfolding quiet_ticks_append by simp
qed

lemma GetAction_offline:
  "\<not> m_bConnected s \<Longrightarrow>
   GetActionFromQNetwork s t st = Inr (word_of_nat (rand_value t mod 4), s)"
  by (simp add: GetActionFromQNetwork_def)

lemma SendReward_offline: "\<not> m_bConnected s \<Longrightarrow> SendReward s t r d = s"
  by (simp add: SendReward_def)

lemma ControlStep_offline:
  assumes "sint (m_nEpisode s) < sint (m_nMaxEpisodes s)" "\<not> m_bEpisodeDone s"
    and "\<not> m_bConnected s"
  shows "ControlStep s t =
     Inr (s\<lparr>m_nSteps := m_nSteps s + 1,
            wheels := wheels (ExecuteAction s (word_of_nat (rand_value t mod 4))),
            m_cPreviousPosition := (if ReachedGoal s t then m_cPreviousPosition s else Position t),
            m_fEpisodeReward := to_float (m_fEpisodeReward s + fst (CalculateReward s t)),
            m_bEpisodeDone :=
              (fst (snd (CalculateReward s t)) \<or> sint (m_nMaxSteps s) \<le> sint (m_nSteps s + 1))\<rparr>)"
proof -
  have a: "GetActionFromQNetwork (s\<lparr>m_nSteps := m_nSteps s + 1\<rparr>) t (GetState s t)
           = Inr (word_of_nat (rand_value t mod 4), s\<lparr>m_nSteps := m_nSteps s + 1\<rparr>)"
    using assms(3) by (simp add: GetAction_offline)
  show ?thesis
    using ControlStep_running [OF assms(1,2) a] assms(3) by (simp add: SendReward_offline)
qed

lemma offline_step: "\<not> m_bConnected s \<Longrightarrow> \<exists>s'. ControlStep s t = Inr s' \<and> \<not> m_bConnected s'"
proof -
  assume off: "\<not> m_bConnected s"
  consider (finished) "sint (m_nMaxEpisodes s) \<le> sint (m_nEpisode s)"
    | (reset) "sint (m_nEpisode s) < sint (m_nMaxEpisodes s)" "m_bEpisodeDone s"
    | (running) "sint (m_nEpisode s) < sint (m_nMaxEpisodes s)" "\<not> m_bEpisodeDone s"
    by linarith
  then show ?thesis
  proof cases
    case finished
    then show ?thesis using off by (simp add: ControlStep_finished)
  next
    case reset
    then show ?thesis using off by (simp add: ControlStep_reset)
  next
    case running
    then show ?thesis using off by (simp add: ControlStep_offline)
  qed
qed

lemma offline_ticks: "\<not> m_bConnected s \<Longrightarrow> \<exists>s'. ticks s ts = Inr s'"
proof (induction ts arbitrary: s)
  case Nil
  then show ?case by simp
next
  case (Cons t ts)
  from offline_step [OF Cons.prems] obtain s1 where "ControlStep s t = Inr s1" "\<not> m_bConnected s1"
    by blast
  then show ?case using Cons.IH [of s1] by simp
qed

section \<open>Action requests and socket failures\<close>

lemma rand_action_range: "sint (word_of_nat (r mod 4) :: cint) \<in> {0, 1, 2, 3}"
proof -
  have "r mod 4 = 0 \<or> r mod 4 = 1 \<or> r mod 4 = 2 \<or> r mod 4 = 3" by presburger
  then show ?thesis by (elim disjE) simp_all
qed

lemma GetAction_send_failed:
  "m_bConnected s \<Longrightarrow> sint (m_nSocket s) < 0 \<or> send_state t \<le> 0 \<Longrightarrow>
   \<exists>s2. GetActionFromQNetwork s t st = Inr (0, s2)"
  by (auto simp: GetActionFromQNetwork_def SendMessage_def)

lemma GetAction_empty_reply:
  "m_bConnected s \<Longrightarrow> received_message (recv_action t) = [] \<Longrightarrow>
   \<exists>s2. GetActionFromQNetwork s t st = Inr (0, s2)"
  by (auto simp: GetActionFromQNetwork_def SendMessage_def ReceiveMessage_def split: bool.splits)

lemma same_sensing:
  "Position u = Position t \<Longrightarrow> Readings u = Readings t \<Longrightarrow>
   ReachedGoal s u = ReachedGoal s t \<and> fst (CalculateReward s u) = fst (CalculateReward s t)
   \<and> fst (snd (CalculateReward s u)) = fst (snd (CalculateReward s t))"
  by (simp add: CalculateReward_def ReachedGoal_def DetectCollision_def Let_def split: bool.splits)

lemma running_bookkeeping:
  assumes "sint (m_nEpisode s) < sint (m_nMaxEpisodes s)" "\<not> m_bEpisodeDone s"
    and "ControlStep s t = Inr s'"
  shows "m_nEpisode s' = m_nEpisode s \<and> m_nSteps s' = m_nSteps s + 1
    \<and> m_fEpisodeReward s' = to_float (m_fEpisodeReward s + fst (CalculateReward s t))
    \<and> m_bEpisodeDone s' =
        (fst (snd (CalculateReward s t)) \<or> sint (m_nMaxSteps s) \<le> sint (m_nSteps s + 1))
    \<and> m_cPreviousPosition s' = (if ReachedGoal s t then m_cPreviousPosition s else Position t)"
proof -
  obtain a s2 where
    "GetActionFromQNetwork (s\<lparr>m_nSteps := m_nSteps s + 1\<rparr>) t (GetState s t) = Inr (a, s2)"
    using ControlStep_running_action [OF assms] by blast
  from ControlStep_running [OF assms(1,2) this] assms(3) show ?thesis by auto
qed

lemma card_residue: "k < 4 \<Longrightarrow> card {r::nat. r < 4 * n \<and> r mod 4 = k} = n"
proof -
  assume k: "k < 4"
  have "{r. r < 4 * n \<and> r mod 4 = k} = (\<lambda>q. 4 * q + k) ` {..<n}" (is "?A = ?B")
  proof (intro set_eqI iffI)
    fix r assume "r \<in> ?A"
    then have "r = 4 * (r div 4) + k" "r div 4 < n" by auto
    then show "r \<in> ?B" by blast
  next
    fix r assume "r \<in> ?B"
    then obtain q where "q < n" "r = 4 * q + k" by auto
    then show "r \<in> ?A" using k by auto
  qed
  moreover have "inj_on (\<lambda>q. 4 * q + k) {..<n}" by (simp add: inj_on_def)
  ultimately show ?thesis by (simp add: card_image)
qed

lemma word_of_small_eq: "j < 4 \<Longrightarrow> k < 4 \<Longrightarrow> ((word_of_nat j :: cint) = word_of_nat k) = (j = k)"
  by (simp add: word_of_nat_eq_iff take_bit_nat_eq_self)

lemma offline_actions_equally_often:
  assumes "\<not> m_bConnected s" "k < 4"
  shows "card {r. r < 4 * n \<and> GetActionFromQNetwork s (t\<lparr>rand_value := r\<rparr>) st = Inr (word_of_nat k, s)} = n"
proof -
  have "{r. r < 4 * n \<and> GetActionFromQNetwork s (t\<lparr>rand_value := r\<rparr>) st = Inr (word_of_nat k, s)}
        = {r. r < 4 * n \<and> r mod 4 = k}"
    using assms by (auto simp: GetAction_offline word_of_small_eq)
  then show ?thesis using card_residue [OF assms(2)] by simp
qed

lemma find_char_None: "(find_char s c = None) = (c \<notin> set s)"
  by (induction s) auto

lemma GetAction_no_delimiter:
  assumes "CHR ''|'' \<notin> set (received_message (recv_action t))"
  shows "\<exists>s2. GetActionFromQNetwork s t st
            = Inr (if m_bConnected s then 0 else word_of_nat (rand_value t mod 4), s2)"
proof -
  have "find_char (received_message (recv_action t)) CHR ''|'' = None"
    using assms by (simp add: find_char_None)
  then show ?thesis
    by (auto simp: GetActionFromQNetwork_def SendMessage_def ReceiveMessage_def
        split: bool.splits)
qed

lemma GetAction_unparseable:
  assumes "m_bConnected s" "0 \<le> sint (m_nSocket s)" "0 < send_state t"
    and "find_char (received_message (recv_action t)) CHR ''|'' = Some pos"
    and "stoi (drop (pos + 1) (received_message (recv_action t))) = Inl e"
  shows "GetActionFromQNetwork s t st = Inl e"
  using assms by (auto simp: GetActionFromQNetwork_def SendMessage_def ReceiveMessage_def)

lemma ControlStep_raises:
  assumes "sint (m_nEpisode s) < sint (m_nMaxEpisodes s)" "\<not> m_bEpisodeDone s"
    and "GetActionFromQNetwork (s\<lparr>m_nSteps := m_nSteps s + 1\<rparr>) t (GetState s t) = Inl e"
  shows "ControlStep s t = Inl e"
  using assms by (simp add: ControlStep_def GetState_def Let_def)

lemmas evaluation = GetActionFromQNetwork_def SendMessage_def ReceiveMessage_def
  received_message_def stoi_def isspace_def isdigit_def decimal_def digit_value_def Let_def

section \<open>The robot's id\<close>

lemma connect_retry_first:
  "rets i = 0 \<Longrightarrow> 0 < left \<Longrightarrow>
   connect_retry s rets i left = (True, s\<lparr>m_bConnected := True\<rparr>)"
  by (cases left) simp_all

lemma find_last_of_None: "(find_last_of s cs = None) = (set s \<inter> set cs = {})"
  by (induction s) (auto split: option.splits)

lemma find_last_of_Some:
  "find_last_of s cs = Some p \<Longrightarrow>
   p < length s \<and> s ! p \<in> set cs \<and> set (drop (Suc p) s) \<inter> set cs = {}"
proof (induction s arbitrary: p)
  case Nil
  then show ?case by simp
next
  case (Cons c s)
  show ?case
  proof (cases "find_last_of s cs")
    case None
    then have "set s \<inter> set cs = {}" by (simp add: find_last_of_None)
    then show ?thesis using Cons.prems None by (auto split: if_splits)
  next
    case (Some q)
    then show ?thesis using Cons.prems Cons.IH [of q] by auto
  qed
qed

lemma digit_facts:
  assumes "d \<in> set ''0123456789''"
  shows "isdigit d" "\<not> isspace d" "d \<noteq> CHR ''-''" "d \<noteq> CHR ''+''"
    "0 \<le> digit_value d" "digit_value d \<le> 9"
  using assms by (auto simp: isdigit_def isspace_def digit_value_def)

lemma stoi_single_digit:
  assumes "d \<in> set ''0123456789''" "set rest \<inter> set ''0123456789'' = {}"
  shows "stoi (d # rest) = Inr (word_of_int (digit_value d))"
proof -
  have "takeWhile isdigit rest = []"
    using assms(2) by (cases rest) (auto simp: isdigit_def)
  then show ?thesis
    using digit_facts [OF assms(1)] by (simp add: stoi_def decimal_def Let_def)
qed

lemma robot_id_last_digit:
  assumes "find_last_of name ''0123456789'' = Some p"
  shows "robot_id s name =
           Inr (s\<lparr>m_strRobotId := name, m_nRobotIdNum := word_of_int (digit_value (name ! p))\<rparr>)"
proof -
  from find_last_of_Some [OF assms]
  have p: "p < length name" "name ! p \<in> set ''0123456789''"
    "set (drop (Suc p) name) \<inter> set ''0123456789'' = {}"
    by blast+
  have "drop p name = name ! p # drop (Suc p) name" using p(1) by (simp add: Cons_nth_drop_Suc)
  then have "stoi (drop p name) = Inr (word_of_int (digit_value (name ! p)))"
    using stoi_single_digit [OF p(2,3)] by simp
  then show ?thesis using assms by (simp add: robot_id_def)
qed

lemma robot_id_no_digit:
  "set name \<inter> set ''0123456789'' = {} \<Longrightarrow> robot_id s name = Inr (s\<lparr>m_strRobotId := name\<rparr>)"
  using find_last_of_None [of name "''0123456789''"] by (simp add: robot_id_def)

lemma ControlStep_id:
  assumes "ControlStep s t = Inr s'"
  shows "m_nRobotIdNum s' = m_nRobotIdNum s"
proof -
  consider (finished) "sint (m_nMaxEpisodes s) \<le> sint (m_nEpisode s)"
    | (reset) "sint (m_nEpisode s) < sint (m_nMaxEpisodes s)" "m_bEpisodeDone s"
    | (running) "sint (m_nEpisode s) < sint (m_nMaxEpisodes s)" "\<not> m_bEpisodeDone s"
    by linarith
  then show ?thesis
  proof cases
    case finished
    then show ?thesis using assms by (auto simp: ControlStep_finished)
  next
    case reset
    then show ?thesis using assms by (auto simp: ControlStep_reset)
  next
    case running
    then obtain a s2 where
      "GetActionFromQNetwork (s\<lparr>m_nSteps := m_nSteps s + 1\<rparr>) t (GetState s t) = Inr (a, s2)"
      using ControlStep_running_action assms by blast
    from ControlStep_running [OF running this] assms show ?thesis by auto
  qed
qed

lemma GetAction_tagged:
  "GetActionFromQNetwork s t st = Inr (a, s2) \<Longrightarrow>
   \<exists>new. wire s2 = wire s @ new \<and> list_all (tagged (m_nRobotIdNum s)) new"
  by (auto simp: GetActionFromQNetwork_def SendMessage_def ReceiveMessage_def state_message_def
      split: if_splits option.splits sum.splits bool.splits)

lemma SendReward_tagged:
  "\<exists>new. wire (SendReward s t r d) = wire s @ new \<and> list_all (tagged (m_nRobotIdNum s)) new"
  by (auto simp: SendReward_def SendMessage_def ReceiveMessage_def reward_message_def Let_def)

lemma ControlStep_tagged:
  assumes "ControlStep s t = Inr s'"
  shows "\<exists>new. wire s' = wire s @ new \<and> list_all (tagged (m_nRobotIdNum s)) new"
proof -
  consider (finished) "sint (m_nMaxEpisodes s) \<le> sint (m_nEpisode s)"
    | (reset) "sint (m_nEpisode s) < sint (m_nMaxEpisodes s)" "m_bEpisodeDone s"
    | (running) "sint (m_nEpisode s) < sint (m_nMaxEpisodes s)" "\<not> m_bEpisodeDone s"
    by linarith
  then show ?thesis
  proof cases
    case finished
    then show ?thesis using assms by (auto simp: ControlStep_finished)
  next
    case reset
    then show ?thesis using assms by (auto simp: ControlStep_reset)
  next
    case running
    then obtain a s2 where
      a: "GetActionFromQNetwork (s\<lparr>m_nSteps := m_nSteps s + 1\<rparr>) t (GetState s t) = Inr (a, s2)"
      using ControlStep_running_action assms by blast
    from GetAction_tagged [OF a] obtain n1 where
      n1: "wire s2 = wire s @ n1" "list_all (tagged (m_nRobotIdNum s)) n1" by auto
    from SendReward_tagged [of "s\<lparr>wire := wire s2\<rparr>" t "fst (CalculateReward s t)"
        "fst (snd (CalculateReward s t))"]
    obtain n2 where
      n2: "wire (SendReward (s\<lparr>wire := wire s2\<rparr>) t (fst (CalculateReward s t))
                  (fst (snd (CalculateReward s t)))) = wire s2 @ n2"
        "list_all (tagged (m_nRobotIdNum s)) n2" by auto
    have "wire s' = wire s @ (n1 @ n2)"
      using ControlStep_running [OF running a] assms n1(1) n2(1) by auto
    then show ?thesis using n1(2) n2(2) by (intro exI [of _ "n1 @ n2"]) simp
  qed
qed

section \<open>Concrete roundings and runs\<close>

lemma float_values:
  "to_float (1 / 10) = 13421773 / 134217728" "to_float (9 / 10) = 7549747 / 8388608"
  "to_float (1 / 100) = 5368709 / 536870912" "to_float (1 / 2) = 1 / 2"
  "to_float (2 / 5) = 13421773 / 33554432" "to_float 1 = 1"
  "to_float (67108863 / 134217728) = 1 / 2"
proof -
  show "to_float (1 / 10) = 13421773 / 134217728"
    by (subst to_float_eval [where e = "- 4"]) (simp_all add: pow2_def round_even_def)
  show "to_float (9 / 10) = 7549747 / 8388608"
    by (subst to_float_eval [where e = "- 1"]) (simp_all add: pow2_def round_even_def)
  show "to_float (1 / 100) = 5368709 / 536870912"
    by (subst to_float_eval [where e = "- 7"]) (simp_all add: pow2_def round_even_def)
  show "to_float (1 / 2) = 1 / 2"
    by (subst to_float_eval [where e = "- 1"]) (simp_all add: pow2_def round_even_def)
  show "to_float (2 / 5) = 13421773 / 33554432"
    by (subst to_float_eval [where e = "- 2"]) (simp_all add: pow2_def round_even_def)
  show "to_float 1 = 1"
    by (subst to_float_eval [where e = "0"]) (simp_all add: pow2_def round_even_def)
  show "to_float (67108863 / 134217728) = 1 / 2"
    by (subst to_float_eval [where e = "- 2"]) (simp_all add: pow2_def round_even_def)
qed

text \<open>The fields of the example robots that the evaluation reads.\<close>

lemma fb_fields:
  "m_fGoalThreshold fb = 1 / 2" "m_fCollisionThreshold fb = 5368709 / 536870912"
  "m_fVelocity fb = 13421773 / 134217728"
  "m_cGoalPosition fb = \<lparr>GetX = 18, GetY = 18\<rparr>" "m_cPreviousPosition fb = \<lparr>GetX = 0, GetY = 0\<rparr>"
  "m_fEpisodeReward fb = 0" "m_nSteps fb = 0" "\<not> m_bEpisodeDone fb" "\<not> m_bConnected fb"
  "m_nEpisode fb = 0" "m_nMaxEpisodes fb = 1000" "m_nMaxSteps fb = 500" "wheels fb = []"
  by (simp_all add: fb_def QSwarmController_def float_values)

lemma fb_online_fields:
  "m_fGoalThreshold fb_online = 1 / 2" "m_fCollisionThreshold fb_online = 5368709 / 536870912"
  "m_fVelocity fb_online = 13421773 / 134217728"
  "m_cGoalPosition fb_online = \<lparr>GetX = 18, GetY = 18\<rparr>"
  "m_cPreviousPosition fb_online = \<lparr>GetX = 0, GetY = 0\<rparr>"
  "m_fEpisodeReward fb_online = 0" "m_nSteps fb_online = 0" "\<not> m_bEpisodeDone fb_online"
  "m_bConnected fb_online" "m_nSocket fb_online = 5"
  "m_nEpisode fb_online = 0" "m_nMaxEpisodes fb_online = 1000" "m_nMaxSteps fb_online = 500"
  "wheels fb_online = []"
  by (simp_all add: fb_online_def fb_def QSwarmController_def float_values)

lemma sensed_fields:
  "Position (sensed px py rs) = \<lparr>GetX = px, GetY = py\<rparr>" "Readings (sensed px py rs) = rs"
  "rand_value (sensed px py rs) = 6" "send_state (sensed px py rs) = 0"
  "recv_action (sensed px py rs) = (0, [])"
  by (simp_all add: sensed_def)

text \<open>Ten step penalties, one rounded addition after the other.\<close>

lemma penalty_steps:
  "to_float (- (13421773 / 134217728)) = - (13421773 / 134217728)"
  "to_float (- (13421773 / 67108864)) = - (13421773 / 67108864)"
  "to_float (- (40265319 / 134217728)) = - (5033165 / 16777216)"
  "to_float (- (53687093 / 134217728)) = - (13421773 / 33554432)"
  "to_float (- (67108865 / 134217728)) = - (1 / 2)"
  "to_float (- (80530637 / 134217728)) = - (5033165 / 8388608)"
  "to_float (- (93952413 / 134217728)) = - (2936013 / 4194304)"
  "to_float (- (107374189 / 134217728)) = - (6710887 / 8388608)"
  "to_float (- (120795965 / 134217728)) = - (1887437 / 2097152)"
  "to_float (- (134217741 / 134217728)) = - (8388609 / 8388608)"
proof -
  show "to_float (- (13421773 / 134217728)) = - (13421773 / 134217728)"
    by (subst to_float_eval [where e = "- 4"]) (simp_all add: pow2_def round_even_def)
  show "to_float (- (13421773 / 67108864)) = - (13421773 / 67108864)"
    by (subst to_float_eval [where e = "- 3"]) (simp_all add: pow2_def round_even_def)
  show "to_float (- (40265319 / 134217728)) = - (5033165 / 16777216)"
    by (subst to_float_eval [where e = "- 2"]) (simp_all add: pow2_def round_even_def)
  show "to_float (- (53687093 / 134217728)) = - (13421773 / 33554432)"
    by (subst to_float_eval [where e = "- 2"]) (simp_all add: pow2_def round_even_def)
  show "to_float (- (67108865 / 134217728)) = - (1 / 2)"
    by (subst to_float_eval [where e = "- 1"]) (simp_all add: pow2_def round_even_def)
  show "to_float (- (80530637 / 134217728)) = - (5033165 / 8388608)"
    by (subst to_float_eval [where e = "- 1"]) (simp_all add: pow2_def round_even_def)
  show "to_float (- (93952413 / 134217728)) = - (2936013 / 4194304)"
    by (subst to_float_eval [where e = "- 1"]) (simp_all add: pow2_def round_even_def)
  show "to_float (- (107374189 / 134217728)) = - (6710887 / 8388608)"
    by (subst to_float_eval [where e = "- 1"]) (simp_all add: pow2_def round_even_def)
  show "to_float (- (120795965 / 134217728)) = - (1887437 / 2097152)"
    by (subst to_float_eval [where e = "- 1"]) (simp_all add: pow2_def round_even_def)
  show "to_float (- (134217741 / 134217728)) = - (8388609 / 8388608)"
    by (subst to_float_eval [where e = "0"]) (simp_all add: pow2_def round_even_def)
qed

lemma add_penalties_values:
  "add_penalties 0 1 = - (13421773 / 134217728)" "add_penalties 0 2 = - (13421773 / 67108864)"
  "add_penalties 0 10 = - (8388609 / 8388608)"
  by (simp_all add: eval_nat_numeral float_values penalty_steps)

lemma walk_length: "length (walk k n) = n"
  by (induction n arbitrary: k) simp_all

text \<open>The walk is quiet as long as the step limit is not passed.\<close>

lemma walk_quiet:
  assumes "\<not> m_bConnected s" "sint (m_nEpisode s) < sint (m_nMaxEpisodes s)" "\<not> m_bEpisodeDone s"
    and "m_cPreviousPosition s = \<lparr>GetX = real k, GetY = 0\<rparr>"
    and "m_cGoalPosition s = \<lparr>GetX = 18, GetY = 18\<rparr>"
    and "m_fGoalThreshold s \<le> 1 / 2" "m_fCollisionThreshold s \<le> 1 / 64"
    and "sint (m_nSteps s) + int n \<le> sint (m_nMaxSteps s)"
  shows "quiet_ticks s (walk k n)"
  using assms
proof (induction n arbitrary: s k)
  case 0
  then show ?case by simp
next
  case (Suc n)
  let ?t = "sensed (real (Suc k)) 0 []"
  have g: "\<not> ReachedGoal s ?t"
  proof (rule far_from_goal [OF Suc.prems(6)])
    have "0 \<le> (real (Suc k) - 18)\<^sup>2" by simp
    then show "1 / 4 \<le> (GetX (Position ?t) - GetX (m_cGoalPosition s))\<^sup>2
                  + (GetY (Position ?t) - GetY (m_cGoalPosition s))\<^sup>2"
      by (simp add: sensed_fields Suc.prems(5))
  qed
  have c: "\<not> fst (DetectCollision s ?t)"
    by (subst moved_enough [OF Suc.prems(7)]) (simp_all add: sensed_fields Suc.prems(4))
  have q: "quiet s ?t" using g c by (simp add: quiet_def)
  note cs = ControlStep_offline [OF Suc.prems(2,3,1), of ?t]
  let ?s1 = "s\<lparr>m_nSteps := m_nSteps s + 1,
            wheels := wheels (ExecuteAction s (word_of_nat (rand_value ?t mod 4))),
            m_cPreviousPosition := (if ReachedGoal s ?t then m_cPreviousPosition s else Position ?t),
            m_fEpisodeReward := to_float (m_fEpisodeReward s + fst (CalculateReward s ?t)),
            m_bEpisodeDone :=
              (fst (snd (CalculateReward s ?t)) \<or> sint (m_nMaxSteps s) \<le> sint (m_nSteps s + 1))\<rparr>"
  have "quiet_ticks ?s1 (walk (Suc k) n)"
  proof (cases n)
    case 0
    then show ?thesis by simp
  next
    case (Suc m)
    have lt: "sint (m_nSteps s) < sint (m_nMaxSteps s)" using Suc.prems(8) by simp
    have suc: "sint (m_nSteps s + 1) = sint (m_nSteps s) + 1" using sint_succ [OF lt] .
    have nd: "\<not> fst (snd (CalculateReward s ?t))" using quiet_reward [OF q] by simp
    show ?thesis
    proof (rule Suc.IH)
      show "\<not> m_bConnected ?s1" using Suc.prems(1) by simp
      show "sint (m_nEpisode ?s1) < sint (m_nMaxEpisodes ?s1)" using Suc.prems(2) by simp
      show "\<not> m_bEpisodeDone ?s1" using nd suc Suc.prems(8) Suc by simp
      show "m_cPreviousPosition ?s1 = \<lparr>GetX = real (Suc k), GetY = 0\<rparr>"
        using g by (simp add: sensed_fields)
      show "m_cGoalPosition ?s1 = \<lparr>GetX = 18, GetY = 18\<rparr>" using Suc.prems(5) by simp
      show "m_fGoalThreshold ?s1 \<le> 1 / 2" using Suc.prems(6) by simp
      show "m_fCollisionThreshold ?s1 \<le> 1 / 64" using Suc.prems(7) by simp
      show "sint (m_nSteps ?s1) + int n \<le> sint (m_nMaxSteps ?s1)"
        using suc Suc.prems(8) by simp
    qed
  qed
  then show ?case using q cs by simp
qed

text \<open>A quiet run from a fresh episode up to the step limit.\<close>

lemma step_limit_run:
  assumes "m_nSteps s = 0" "m_fEpisodeReward s = 0" "\<not> m_bEpisodeDone s"
    and "sint (m_nEpisode s) < sint (m_nMaxEpisodes s)"
    and len: "int (length ts) = max 1 (sint (m_nMaxSteps s))"
    and qt: "quiet_ticks s ts" and tk: "ticks s ts = Inr s'"
  shows "m_bEpisodeDone s' \<and> m_fEpisodeReward s' = add_penalties 0 (length ts)
      \<and> (\<forall>k<length ts. \<exists>sk. ticks s (take k ts) = Inr sk \<and> \<not> m_bEpisodeDone sk
             \<and> sint (m_nEpisode sk) < sint (m_nMaxEpisodes sk)
             \<and> m_fEpisodeReward sk = add_penalties 0 k)"
proof -
  let ?n = "max 1 (sint (m_nMaxSteps s))"
  have run: "sint (m_nEpisode s) < sint (m_nMaxEpisodes s)" "\<not> m_bEpisodeDone s"
    using assms by simp_all
  have z: "sint (m_nSteps s) = 0" using assms(1) by simp
  have before: "\<exists>sk. ticks s (take k ts) = Inr sk \<and> \<not> m_bEpisodeDone sk
             \<and> sint (m_nEpisode sk) < sint (m_nMaxEpisodes sk)
             \<and> m_fEpisodeReward sk = add_penalties 0 k
             \<and> sint (m_nSteps sk) = int k \<and> m_nMaxSteps sk = m_nMaxSteps s" if k: "k < length ts" for k
  proof -
    obtain sk where sk: "ticks s (take k ts) = Inr sk" using ticks_take tk by blast
    have q: "quiet_ticks s (take k ts)" using quiet_ticks_take qt by blast
    have lk: "length (take k ts) = k" using k by simp
    show ?thesis
    proof (cases "k = 0")
      case True
      then show ?thesis using assms z by simp
    next
      case False
      then have "int k < sint (m_nMaxSteps s)" using k len by linarith
      then have "sint (m_nSteps s) + int (length (take k ts)) < sint (m_nMaxSteps s)"
        using z lk by simp
      from quiet_prefix [OF run q sk _ this] z lk assms(2,4) sk show ?thesis by simp
    qed
  qed
  from len obtain pre t where ts: "ts = pre @ [t]"
    by (cases ts rule: rev_cases) auto
  have lp: "length pre < length ts" "take (length pre) ts = pre" using ts by simp_all
  from before [OF lp(1)] lp(2) obtain sp where
    sp: "ticks s pre = Inr sp" "\<not> m_bEpisodeDone sp" "sint (m_nEpisode sp) < sint (m_nMaxEpisodes sp)"
      "m_fEpisodeReward sp = add_penalties 0 (length pre)" "sint (m_nSteps sp) = int (length pre)"
      "m_nMaxSteps sp = m_nMaxSteps s"
    by auto
  have last: "ControlStep sp t = Inr s'"
    using tk sp(1) by (auto simp: ts ticks_append split: sum.splits)
  have ql: "quiet sp t" using qt sp(1) by (simp add: ts quiet_ticks_append)
  note st = quiet_step [OF sp(3) sp(2) ql last]
  have n1: "int (length pre) + 1 = ?n" using len ts by simp
  have suc: "sint (m_nSteps sp + 1) = int (length pre) + 1"
  proof (cases "length pre = 0")
    case True
    then have "m_nSteps sp = 0" using sp(5) by (simp add: sint_small_iff)
    then show ?thesis using True by simp
  next
    case False
    then have "sint (m_nSteps sp) < sint (m_nMaxSteps s)" using n1 sp(5) by linarith
    from sint_succ [OF this] sp(5) show ?thesis by simp
  qed
  have d: "m_bEpisodeDone s'" using st suc n1 sp(6) by simp
  have "m_fEpisodeReward s' = add_penalties 0 (Suc (length pre))"
    using st sp(4) by (simp only: add_penalties_last)
  then have r: "m_fEpisodeReward s' = add_penalties 0 (length ts)" by (simp add: ts)
  show ?thesis using d r before by blast
qed

section \<open>Reward and termination evaluation\<close>

text \<open>
  C1, as stated, fails within rounding of the thresholds. (a) The obstacle test compares a
  reading with the literal \<open>0.9f\<close>, which is below 0.9: the only
  reading, 60397977 / 67108864, does not exceed 0.9, the robot has moved and is far from the goal,
  and yet the result is (-5, true). (b) The distance is stored in a \<open>float\<close> before the
  comparison: at distance 1/2 - 1/2^27 from the goal, strictly below the threshold 1/2,
  the stored value is 1/2 and the goal is not recognised. The step penalty returned there
  is the literal \<open>-0.1f\<close>, which is not -0.1.
\<close>

theorem C1_reward_evaluation_counterexample:
  "\<not> Length (vec_minus (Position (sensed 1 0 [60397977 / 67108864])) (m_cGoalPosition fb))
       < m_fGoalThreshold fb
   \<and> \<not> Length (vec_minus (Position (sensed 1 0 [60397977 / 67108864])) (m_cPreviousPosition fb))
       < m_fCollisionThreshold fb
   \<and> Readings (sensed 1 0 [60397977 / 67108864]) = [60397977 / 67108864]
   \<and> \<not> 0.9 < (60397977 / 67108864 :: real)
   \<and> (fst (CalculateReward fb (sensed 1 0 [60397977 / 67108864])),
       fst (snd (CalculateReward fb (sensed 1 0 [60397977 / 67108864])))) = (- 5, True)
   \<and> Length (vec_minus (Position (sensed (2348810241 / 134217728) 18 [])) (m_cGoalPosition fb))
       < m_fGoalThreshold fb
   \<and> (fst (CalculateReward fb (sensed (2348810241 / 134217728) 18 [])),
       fst (snd (CalculateReward fb (sensed (2348810241 / 134217728) 18 []))))
      = (- (13421773 / 134217728), False)"
proof -
  let ?t = "sensed 1 0 [60397977 / 67108864]"
  let ?u = "sensed (2348810241 / 134217728) 18 []"
  have g: "\<not> ReachedGoal fb ?t"
    by (rule far_from_goal) (simp_all add: fb_fields sensed_fields)
  have "1 / 2 \<le> Length (vec_minus (Position ?t) (m_cGoalPosition fb))"
    by (subst Length_ge_iff) (simp_all add: fb_fields sensed_fields vec_minus_def power2_eq_square)
  then have a: "\<not> Length (vec_minus (Position ?t) (m_cGoalPosition fb)) < m_fGoalThreshold fb"
    by (simp add: fb_fields)
  have b: "\<not> Length (vec_minus (Position ?t) (m_cPreviousPosition fb)) < m_fCollisionThreshold fb"
    by (simp add: fb_fields sensed_fields vec_minus_def Length_axis)
  have c: "Readings ?t = [60397977 / 67108864]" "\<not> 0.9 < (60397977 / 67108864 :: real)"
    by (simp_all add: sensed_fields)
  have "fst (DetectCollision fb ?t) = close_obstacle (Readings ?t)"
    by (rule moved_enough) (simp_all add: fb_fields sensed_fields)
  then have "fst (DetectCollision fb ?t)"
    by (simp add: sensed_fields float_values)
  then have d: "(fst (CalculateReward fb ?t), fst (snd (CalculateReward fb ?t))) = (- 5, True)"
    using g by (simp add: CalculateReward_alt)
  have l: "Length (vec_minus (Position ?u) (m_cGoalPosition fb)) = 67108863 / 134217728"
    by (simp add: fb_fields sensed_fields vec_minus_def Length_axis)
  have e: "Length (vec_minus (Position ?u) (m_cGoalPosition fb)) < m_fGoalThreshold fb"
    unfolding l by (simp add: fb_fields)
  have gu: "\<not> ReachedGoal fb ?u"
    unfolding ReachedGoal_def l by (simp add: float_values fb_fields)
  have "fst (DetectCollision fb ?u) = close_obstacle (Readings ?u)"
    by (rule moved_enough) (simp_all add: fb_fields sensed_fields power2_eq_square)
  then have "\<not> fst (DetectCollision fb ?u)" by (simp add: sensed_fields)
  then have f: "(fst (CalculateReward fb ?u), fst (snd (CalculateReward fb ?u)))
                 = (- (13421773 / 134217728), False)"
    using gu by (simp add: CalculateReward_alt float_values)
  show ?thesis using a b c d e f by blast
qed

text \<open>
  C1, amended. The evaluation returns (+10, true) when the distance from the current
  position to the goal, rounded to single precision, is strictly below the goal
  threshold, whether or not the collision condition holds as well; otherwise (-5, true)
  when the distance to the previous position, rounded to single precision, is strictly
  below the collision threshold or some proximity reading exceeds the literal \<open>0.9f\<close>,
  that is 7549747 / 8388608; otherwise (\<open>-0.1f\<close>, false), where \<open>0.1f\<close> is
  13421773 / 134217728. This holds in every state, so also in the state in which a running
  tick calls the evaluation.
\<close>

theorem C1_reward_evaluation:
  "(fst (CalculateReward s t), fst (snd (CalculateReward s t))) =
   (if to_float (Length (vec_minus (Position t) (m_cGoalPosition s))) < m_fGoalThreshold s
    then (10, True)
    else if to_float (Length (vec_minus (Position t) (m_cPreviousPosition s)))
              < m_fCollisionThreshold s
            \<or> (\<exists>r \<in> set (Readings t). to_float 0.9 < r) then (- 5, True)
    else (- to_float 0.1, False))
   \<and> to_float 0.9 = 7549747 / 8388608 \<and> to_float 0.1 = 13421773 / 134217728"
proof (intro conjI)
  show "(fst (CalculateReward s t), fst (snd (CalculateReward s t))) =
   (if to_float (Length (vec_minus (Position t) (m_cGoalPosition s))) < m_fGoalThreshold s
    then (10, True)
    else if to_float (Length (vec_minus (Position t) (m_cPreviousPosition s)))
              < m_fCollisionThreshold s
            \<or> (\<exists>r \<in> set (Readings t). to_float 0.9 < r) then (- 5, True)
    else (- to_float 0.1, False))"
    by (simp add: CalculateReward_def ReachedGoal_def DetectCollision_def Let_def
        close_obstacle_iff)
  show "to_float 0.9 = 7549747 / 8388608" by (rule float_literals)
  show "to_float 0.1 = 13421773 / 134217728" by (rule float_literals)
qed

text \<open>
  The robot stands still 0.4 from the goal with an obstacle reading of 0.95: both the
  goal condition and the collision condition hold, and the result is (+10, true).
\<close>

theorem C1_reward_evaluation_witness:
  "(fst (CalculateReward (fb\<lparr>m_cPreviousPosition := \<lparr>GetX = 17.6, GetY = 18\<rparr>\<rparr>)
           (sensed 17.6 18 [0, 0.95])),
    fst (snd (CalculateReward (fb\<lparr>m_cPreviousPosition := \<lparr>GetX = 17.6, GetY = 18\<rparr>\<rparr>)
           (sensed 17.6 18 [0, 0.95]))))
   = (10, True)"
proof -
  let ?s = "fb\<lparr>m_cPreviousPosition := \<lparr>GetX = 17.6, GetY = 18\<rparr>\<rparr>"
  let ?t = "sensed 17.6 18 [0, 0.95]"
  have l: "Length (vec_minus (Position ?t) (m_cGoalPosition ?s)) = 2 / 5"
    by (simp add: fb_fields sensed_fields vec_minus_def Length_axis)
  have "to_float (Length (vec_minus (Position ?t) (m_cGoalPosition ?s))) < m_fGoalThreshold ?s"
    unfolding l by (simp add: float_values fb_fields)
  then show ?thesis
    using C1_reward_evaluation [of ?s ?t] by simp
qed

text \<open>
  C2, as stated, fails: on a tick on which the goal check succeeds the collision check is
  not called, and the previous position keeps its old value. Here the robot was at (0, 0)
  and is now 0.4 from the goal.
\<close>

theorem C2_previous_position_counterexample:
  "m_cPreviousPosition (snd (snd (CalculateReward fb (sensed 17.6 18 []))))
     \<noteq> Position (sensed 17.6 18 [])
   \<and> (case ControlStep fb (sensed 17.6 18 []) of
        Inl e \<Rightarrow> False
      | Inr s' \<Rightarrow> m_cPreviousPosition s' \<noteq> Position (sensed 17.6 18 []))"
proof -
  have l: "Length (vec_minus (Position (sensed 17.6 18 [])) (m_cGoalPosition fb)) = 2 / 5"
    by (simp add: fb_fields sensed_fields vec_minus_def Length_axis)
  have g: "ReachedGoal fb (sensed 17.6 18 [])"
    unfolding ReachedGoal_def l by (simp add: float_values fb_fields)
  have r: "sint (m_nEpisode fb) < sint (m_nMaxEpisodes fb)" "\<not> m_bEpisodeDone fb"
    "\<not> m_bConnected fb"
    by (simp_all add: fb_fields)
  show ?thesis
    using g by (simp add: ControlStep_offline [OF r] CalculateReward_alt fb_fields sensed_fields)
qed

text \<open>
  C2, amended. The evaluation changes nothing but the previous position, and sets it to
  the current position exactly when the goal check fails. So after a running tick the
  previous position is the tick's position if the goal was not reached, and is unchanged
  if it was. The goal check compares the distance as stored in a \<open>float\<close>.
\<close>

theorem C2_previous_position:
  "snd (snd (CalculateReward s t)) =
     (if to_float (Length (vec_minus (Position t) (m_cGoalPosition s))) < m_fGoalThreshold s
      then s else s\<lparr>m_cPreviousPosition := Position t\<rparr>)
   \<and> (sint (m_nEpisode s) < sint (m_nMaxEpisodes s) \<and> \<not> m_bEpisodeDone s
        \<and> ControlStep s t = Inr s' \<longrightarrow>
      m_cPreviousPosition s' =
        (if to_float (Length (vec_minus (Position t) (m_cGoalPosition s))) < m_fGoalThreshold s
         then m_cPreviousPosition s else Position t))"
proof (intro conjI impI)
  show "snd (snd (CalculateReward s t)) =
     (if to_float (Length (vec_minus (Position t) (m_cGoalPosition s))) < m_fGoalThreshold s
      then s else s\<lparr>m_cPreviousPosition := Position t\<rparr>)"
    by (simp add: CalculateReward_state) (simp add: ReachedGoal_def)
next
  assume h: "sint (m_nEpisode s) < sint (m_nMaxEpisodes s) \<and> \<not> m_bEpisodeDone s
        \<and> ControlStep s t = Inr s'"
  then obtain a s2 where
    "GetActionFromQNetwork (s\<lparr>m_nSteps := m_nSteps s + 1\<rparr>) t (GetState s t) = Inr (a, s2)"
    using ControlStep_running_action by blast
  from ControlStep_running [OF _ _ this] h
  have "m_cPreviousPosition s' = (if ReachedGoal s t then m_cPreviousPosition s else Position t)"
    by auto
  then show "m_cPreviousPosition s' =
        (if to_float (Length (vec_minus (Position t) (m_cGoalPosition s))) < m_fGoalThreshold s
         then m_cPreviousPosition s else Position t)"
    by (simp add: ReachedGoal_def)
qed

text \<open>
  A running tick of the disconnected robot that has moved from (0, 0) to (1, 0), far from
  the goal: the previous position becomes (1, 0).
\<close>

theorem C2_previous_position_witness:
  "snd (snd (CalculateReward fb (sensed 1 0 []))) = fb\<lparr>m_cPreviousPosition := \<lparr>GetX = 1, GetY = 0\<rparr>\<rparr>
   \<and> (case ControlStep fb (sensed 1 0 []) of
        Inl e \<Rightarrow> False
      | Inr s' \<Rightarrow> m_cPreviousPosition s' = \<lparr>GetX = 1, GetY = 0\<rparr>)"
proof -
  have "\<not> ReachedGoal fb (sensed 1 0 [])"
    by (rule far_from_goal) (simp_all add: fb_fields sensed_fields)
  then have g: "\<not> to_float (Length (vec_minus (Position (sensed 1 0 [])) (m_cGoalPosition fb)))
                   < m_fGoalThreshold fb"
    by (simp add: ReachedGoal_def)
  have r: "sint (m_nEpisode fb) < sint (m_nMaxEpisodes fb)" "\<not> m_bEpisodeDone fb"
    "\<not> m_bConnected fb"
    by (simp_all add: fb_fields)
  obtain s' where s': "ControlStep fb (sensed 1 0 []) = Inr s'"
    using offline_step [OF r(3)] by blast
  have p: "Position (sensed 1 0 []) = \<lparr>GetX = 1, GetY = 0\<rparr>" by (simp add: sensed_fields)
  show ?thesis
    using C2_previous_position [of fb "sensed 1 0 []" s'] g r s' by (simp add: p)
qed

section \<open>The finished state and the episode reset\<close>

text \<open>
  C5. When the episode index has reached the maximum, a control step gives the stop
  command (0, 0) to the wheels and changes nothing else: no call on the socket, and the
  episode index, step index, accumulated reward, done flag and previous position stay as
  they are. The condition therefore still holds afterwards, and any number of further
  ticks only adds one stop command each.
\<close>

theorem C5_finished_noop:
  "sint (m_nMaxEpisodes s) \<le> sint (m_nEpisode s) \<Longrightarrow>
   ControlStep s t = Inr (s\<lparr>wheels := wheels s @ [(0, 0)]\<rparr>)
   \<and> ticks s ts = Inr (s\<lparr>wheels := wheels s @ replicate (length ts) (0, 0)\<rparr>)"
proof (induction ts arbitrary: s t)
  case Nil
  then show ?case by (simp add: ControlStep_finished)
next
  case (Cons u us)
  let ?s' = "s\<lparr>wheels := wheels s @ [(0, 0)]\<rparr>"
  have "sint (m_nMaxEpisodes ?s') \<le> sint (m_nEpisode ?s')" using Cons.prems by simp
  from Cons.IH [OF this]
  have "ticks ?s' us = Inr (?s'\<lparr>wheels := wheels ?s' @ replicate (length us) (0, 0)\<rparr>)"
    by simp
  then show ?case
    using Cons.prems by (simp add: ControlStep_finished replicate_app_Cons_same)
qed

text \<open>
  The connected robot with all 1000 episodes done: one tick and two ticks in a row leave
  the state as it is but for the stop commands, and the socket log stays empty.
\<close>

theorem C5_finished_noop_witness:
  "sint (m_nMaxEpisodes (fb_online\<lparr>m_nEpisode := 1000\<rparr>)) \<le> sint (m_nEpisode (fb_online\<lparr>m_nEpisode := 1000\<rparr>))
   \<and> ControlStep (fb_online\<lparr>m_nEpisode := 1000\<rparr>) (answered 1 0 [] ''ACTION|1'')
       = Inr (fb_online\<lparr>m_nEpisode := 1000, wheels := [(0, 0)]\<rparr>)
   \<and> ticks (fb_online\<lparr>m_nEpisode := 1000\<rparr>) [answered 1 0 [] ''ACTION|1'', sensed 2 0 []]
       = Inr (fb_online\<lparr>m_nEpisode := 1000, wheels := [(0, 0), (0, 0)]\<rparr>)"
proof -
  have h: "sint (m_nMaxEpisodes (fb_online\<lparr>m_nEpisode := 1000\<rparr>))
             \<le> sint (m_nEpisode (fb_online\<lparr>m_nEpisode := 1000\<rparr>))"
    by (simp add: examples)
  have w: "wheels fb_online = []" by (simp add: examples)
  show ?thesis
    using h C5_finished_noop [OF h, of "answered 1 0 [] ''ACTION|1''"
        "[answered 1 0 [] ''ACTION|1'', sensed 2 0 []]"]
    by (simp add: w del: ticks.simps)
qed

text \<open>
  C6. A control step entered with the done flag set, and episodes left, is exactly an
  episode reset: the episode index goes up by one (without overflow), the step index and
  the accumulated reward become 0, the done flag is cleared, the wheels are stopped, the
  previous position becomes the current position, and the socket log is unchanged. No
  other control step changes the episode index.
\<close>

theorem C6_episode_reset:
  "(sint (m_nEpisode s) < sint (m_nMaxEpisodes s) \<and> m_bEpisodeDone s \<longrightarrow>
      ControlStep s t =
        Inr (s\<lparr>m_nEpisode := m_nEpisode s + 1, m_nSteps := 0, m_bEpisodeDone := False,
               m_fEpisodeReward := 0, wheels := wheels s @ [(0, 0)],
               m_cPreviousPosition := Position t\<rparr>)
      \<and> sint (m_nEpisode s + 1) = sint (m_nEpisode s) + 1)
   \<and> (\<forall>s'. ControlStep s t = Inr s' \<longrightarrow>
        m_nEpisode s' =
          (if sint (m_nEpisode s) < sint (m_nMaxEpisodes s) \<and> m_bEpisodeDone s
           then m_nEpisode s + 1 else m_nEpisode s))"
proof (intro conjI impI allI)
  assume "sint (m_nEpisode s) < sint (m_nMaxEpisodes s) \<and> m_bEpisodeDone s"
  then show "ControlStep s t =
        Inr (s\<lparr>m_nEpisode := m_nEpisode s + 1, m_nSteps := 0, m_bEpisodeDone := False,
               m_fEpisodeReward := 0, wheels := wheels s @ [(0, 0)],
               m_cPreviousPosition := Position t\<rparr>)"
    by (simp add: ControlStep_reset)
next
  assume "sint (m_nEpisode s) < sint (m_nMaxEpisodes s) \<and> m_bEpisodeDone s"
  then show "sint (m_nEpisode s + 1) = sint (m_nEpisode s) + 1"
    using sint_succ by blast
next
  fix s'
  assume cs: "ControlStep s t = Inr s'"
  consider (finished) "sint (m_nMaxEpisodes s) \<le> sint (m_nEpisode s)"
    | (reset) "sint (m_nEpisode s) < sint (m_nMaxEpisodes s)" "m_bEpisodeDone s"
    | (running) "sint (m_nEpisode s) < sint (m_nMaxEpisodes s)" "\<not> m_bEpisodeDone s"
    by linarith
  then show "m_nEpisode s' =
          (if sint (m_nEpisode s) < sint (m_nMaxEpisodes s) \<and> m_bEpisodeDone s
           then m_nEpisode s + 1 else m_nEpisode s)"
  proof cases
    case finished
    then show ?thesis using cs by (auto simp: ControlStep_finished)
  next
    case reset
    then show ?thesis using cs by (auto simp: ControlStep_reset)
  next
    case running
    then obtain a s2 where
      "GetActionFromQNetwork (s\<lparr>m_nSteps := m_nSteps s + 1\<rparr>) t (GetState s t) = Inr (a, s2)"
      using ControlStep_running_action cs by blast
    from ControlStep_running [OF running this] cs running show ?thesis by auto
  qed
qed

text \<open>
  The connected robot at the end of episode 4, after 17 steps, now at (1, 0): the control
  step starts episode 5 and sends nothing.
\<close>

theorem C6_episode_reset_witness:
  "sint (m_nEpisode (fb_online\<lparr>m_nEpisode := 4, m_nSteps := 17, m_bEpisodeDone := True\<rparr>))
     < sint (m_nMaxEpisodes (fb_online\<lparr>m_nEpisode := 4, m_nSteps := 17, m_bEpisodeDone := True\<rparr>))
   \<and> ControlStep (fb_online\<lparr>m_nEpisode := 4, m_nSteps := 17, m_bEpisodeDone := True\<rparr>)
        (answered 1 0 [] ''ACTION|1'')
      = Inr (fb_online\<lparr>m_nEpisode := 5, m_cPreviousPosition := \<lparr>GetX = 1, GetY = 0\<rparr>,
               wheels := [(0, 0)]\<rparr>)"
proof -
  let ?s = "fb_online\<lparr>m_nEpisode := 4, m_nSteps := 17, m_bEpisodeDone := True\<rparr>"
  have h: "sint (m_nEpisode ?s) < sint (m_nMaxEpisodes ?s)" "m_bEpisodeDone ?s"
    by (simp_all add: examples)
  show ?thesis
    using h C6_episode_reset [of ?s "answered 1 0 [] ''ACTION|1''"]
    by (simp add: examples)
qed

section \<open>Action execution\<close>


section \<open>Experiment reset\<close>

text \<open>
  C10. The host's \<open>Reset\<close> sets the episode index, the step index and the accumulated
  reward to 0, clears the done flag, stops the wheels and takes the current position as
  previous position. Every other field keeps its value: the socket handle, the connected
  flag, the id, the goal, the velocity, the limits and the thresholds; and the socket log
  is unchanged, so nothing is sent or received and no connection is attempted.
\<close>

theorem C10_host_reset:
  "Reset s t =
     s\<lparr>m_nEpisode := 0, m_nSteps := 0, m_bEpisodeDone := False, m_fEpisodeReward := 0,
       wheels := wheels s @ [(0, 0)], m_cPreviousPosition := Position t\<rparr>
   \<and> wire (Reset s t) = wire s
   \<and> m_nSocket (Reset s t) = m_nSocket s \<and> m_bConnected (Reset s t) = m_bConnected s
   \<and> m_nRobotIdNum (Reset s t) = m_nRobotIdNum s \<and> m_strRobotId (Reset s t) = m_strRobotId s
   \<and> m_cGoalPosition (Reset s t) = m_cGoalPosition s \<and> m_fVelocity (Reset s t) = m_fVelocity s
   \<and> m_nMaxSteps (Reset s t) = m_nMaxSteps s \<and> m_nMaxEpisodes (Reset s t) = m_nMaxEpisodes s
   \<and> m_fCollisionThreshold (Reset s t) = m_fCollisionThreshold s
   \<and> m_fGoalThreshold (Reset s t) = m_fGoalThreshold s"
  by (simp add: Reset_def SetLinearVelocity_def Let_def)

section \<open>The step limit\<close>

text \<open>
  C7, as stated, fails in two ways. (a) When the step limit is 0 (or negative): the step
  index is incremented before it is compared with the limit, so a fresh episode with
  limit 0 is not done after 0 ticks; it is done after its first tick, with one penalty
  accumulated. (b) The accumulated reward is a \<open>float\<close> and every addition is rounded:
  after the ten quiet ticks of a walk with step limit 10 it is -8388609 / 8388608, not
  -0.1 times 10.
\<close>

theorem C7_step_limit_counterexample:
  "m_nSteps (fb\<lparr>m_nMaxSteps := 0\<rparr>) = 0 \<and> m_fEpisodeReward (fb\<lparr>m_nMaxSteps := 0\<rparr>) = 0
   \<and> sint (m_nEpisode (fb\<lparr>m_nMaxSteps := 0\<rparr>)) < sint (m_nMaxEpisodes (fb\<lparr>m_nMaxSteps := 0\<rparr>))
   \<and> int (length ([] :: tick list)) = sint (m_nMaxSteps (fb\<lparr>m_nMaxSteps := 0\<rparr>))
   \<and> quiet_ticks (fb\<lparr>m_nMaxSteps := 0\<rparr>) []
   \<and> (case ticks (fb\<lparr>m_nMaxSteps := 0\<rparr>) [] of
        Inl e \<Rightarrow> False
      | Inr s' \<Rightarrow> \<not> m_bEpisodeDone s')
   \<and> quiet (fb\<lparr>m_nMaxSteps := 0\<rparr>) (sensed 1 0 [])
   \<and> (case ticks (fb\<lparr>m_nMaxSteps := 0\<rparr>) [sensed 1 0 []] of
        Inl e \<Rightarrow> False
      | Inr s' \<Rightarrow> m_bEpisodeDone s' \<and> m_fEpisodeReward s' = - (13421773 / 134217728))
   \<and> m_nSteps (fb\<lparr>m_nMaxSteps := 10\<rparr>) = 0 \<and> m_fEpisodeReward (fb\<lparr>m_nMaxSteps := 10\<rparr>) = 0
   \<and> \<not> m_bEpisodeDone (fb\<lparr>m_nMaxSteps := 10\<rparr>)
   \<and> sint (m_nEpisode (fb\<lparr>m_nMaxSteps := 10\<rparr>)) < sint (m_nMaxEpisodes (fb\<lparr>m_nMaxSteps := 10\<rparr>))
   \<and> int (length (walk 0 10)) = sint (m_nMaxSteps (fb\<lparr>m_nMaxSteps := 10\<rparr>))
   \<and> quiet_ticks (fb\<lparr>m_nMaxSteps := 10\<rparr>) (walk 0 10)
   \<and> (case ticks (fb\<lparr>m_nMaxSteps := 10\<rparr>) (walk 0 10) of
        Inl e \<Rightarrow> False
      | Inr s' \<Rightarrow> m_bEpisodeDone s' \<and> m_fEpisodeReward s' = - (8388609 / 8388608)
                 \<and> m_fEpisodeReward s' \<noteq> - 0.1 * 10)"
proof -
  let ?s = "fb\<lparr>m_nMaxSteps := 0\<rparr>"
  let ?t = "sensed 1 0 []"
  have run: "sint (m_nEpisode ?s) < sint (m_nMaxEpisodes ?s)" "\<not> m_bEpisodeDone ?s"
    "\<not> m_bConnected ?s"
    by (simp_all add: fb_fields)
  have g: "\<not> ReachedGoal ?s ?t"
    by (rule far_from_goal) (simp_all add: fb_fields sensed_fields)
  have "fst (DetectCollision ?s ?t) = close_obstacle (Readings ?t)"
    by (rule moved_enough) (simp_all add: fb_fields sensed_fields)
  then have c: "\<not> fst (DetectCollision ?s ?t)" by (simp add: sensed_fields)
  have q: "quiet ?s ?t" using g c by (simp add: quiet_def)
  have r: "fst (CalculateReward ?s ?t) = - (13421773 / 134217728)"
    using quiet_reward [OF q] by (simp add: float_values)
  have one: "case ticks ?s [?t] of Inl e \<Rightarrow> False
        | Inr s' \<Rightarrow> m_bEpisodeDone s' \<and> m_fEpisodeReward s' = - (13421773 / 134217728)"
    using penalty_steps(1) by (simp add: ControlStep_offline [OF run] r fb_fields)
  have a: "m_nSteps ?s = 0 \<and> m_fEpisodeReward ?s = 0
     \<and> sint (m_nEpisode ?s) < sint (m_nMaxEpisodes ?s)
     \<and> int (length ([] :: tick list)) = sint (m_nMaxSteps ?s)
     \<and> quiet_ticks ?s []
     \<and> (case ticks ?s [] of Inl e \<Rightarrow> False | Inr s' \<Rightarrow> \<not> m_bEpisodeDone s')"
    by (simp add: fb_fields)
  let ?w = "fb\<lparr>m_nMaxSteps := 10\<rparr>"
  have fresh: "m_nSteps ?w = 0" "m_fEpisodeReward ?w = 0" "\<not> m_bEpisodeDone ?w"
    "sint (m_nEpisode ?w) < sint (m_nMaxEpisodes ?w)" "\<not> m_bConnected ?w"
    by (simp_all add: fb_fields)
  have len: "int (length (walk 0 10)) = sint (m_nMaxSteps ?w)" by (simp add: walk_length)
  have qw: "quiet_ticks ?w (walk 0 10)"
    by (rule walk_quiet) (simp_all add: fb_fields)
  obtain s' where s': "ticks ?w (walk 0 10) = Inr s'" using offline_ticks [OF fresh(5)] by blast
  have "int (length (walk 0 10)) = max 1 (sint (m_nMaxSteps ?w))" by (simp add: walk_length)
  from step_limit_run [OF fresh(1-4) this qw s']
  have "m_bEpisodeDone s'" "m_fEpisodeReward s' = - (8388609 / 8388608)"
    by (simp_all add: walk_length add_penalties_values)
  then have ten: "case ticks ?w (walk 0 10) of Inl e \<Rightarrow> False
      | Inr s' \<Rightarrow> m_bEpisodeDone s' \<and> m_fEpisodeReward s' = - (8388609 / 8388608)
                 \<and> m_fEpisodeReward s' \<noteq> - 0.1 * 10"
    by (simp add: s')
  show ?thesis using a q one fresh(1-4) len qw ten by blast
qed

text \<open>
  C7, amended. Starting from a fresh episode with episodes left, let \<open>n\<close> be the larger
  of 1 and the step limit. If \<open>n\<close> ticks run without an exception and each is quiet,
  then after them the done flag is set and the accumulated reward is what \<open>n\<close> additions
  of the penalty \<open>-0.1f\<close> to 0 give, each addition rounded to single precision; after
  every smaller number \<open>k\<close> of these ticks the done flag is still clear, the tick that
  follows is a running one, and the accumulated reward is that of \<open>k\<close> such additions.
  One addition gives -13421773 / 134217728 and ten give -8388609 / 8388608, so the sum is
  not -0.1 times the number of ticks. Further, every running tick increments the step
  index and sets the done flag exactly when the evaluation reports done or the
  incremented step index has reached the step limit.
\<close>

theorem C7_step_limit:
  "(m_nSteps s = 0 \<and> m_fEpisodeReward s = 0 \<and> \<not> m_bEpisodeDone s
      \<and> sint (m_nEpisode s) < sint (m_nMaxEpisodes s)
      \<and> int (length ts) = max 1 (sint (m_nMaxSteps s))
      \<and> quiet_ticks s ts \<and> ticks s ts = Inr s' \<longrightarrow>
      m_bEpisodeDone s'
      \<and> m_fEpisodeReward s' = add_penalties 0 (length ts)
      \<and> (\<forall>k<length ts. \<exists>sk. ticks s (take k ts) = Inr sk \<and> \<not> m_bEpisodeDone sk
             \<and> sint (m_nEpisode sk) < sint (m_nMaxEpisodes sk)
             \<and> m_fEpisodeReward sk = add_penalties 0 k))
   \<and> (sint (m_nEpisode v) < sint (m_nMaxEpisodes v) \<and> \<not> m_bEpisodeDone v
        \<and> ControlStep v u = Inr v' \<longrightarrow>
      m_nSteps v' = m_nSteps v + 1
      \<and> m_bEpisodeDone v' =
          (fst (snd (CalculateReward v u)) \<or> sint (m_nMaxSteps v) \<le> sint (m_nSteps v')))
   \<and> add_penalties 0 1 = - (13421773 / 134217728)
   \<and> add_penalties 0 10 = - (8388609 / 8388608)"
proof -
  have run: "m_nSteps s = 0 \<and> m_fEpisodeReward s = 0 \<and> \<not> m_bEpisodeDone s
      \<and> sint (m_nEpisode s) < sint (m_nMaxEpisodes s)
      \<and> int (length ts) = max 1 (sint (m_nMaxSteps s))
      \<and> quiet_ticks s ts \<and> ticks s ts = Inr s' \<longrightarrow>
      m_bEpisodeDone s'
      \<and> m_fEpisodeReward s' = add_penalties 0 (length ts)
      \<and> (\<forall>k<length ts. \<exists>sk. ticks s (take k ts) = Inr sk \<and> \<not> m_bEpisodeDone sk
             \<and> sint (m_nEpisode sk) < sint (m_nMaxEpisodes sk)
             \<and> m_fEpisodeReward sk = add_penalties 0 k)"
    using step_limit_run [of s ts s'] by blast
  have tick: "sint (m_nEpisode v) < sint (m_nMaxEpisodes v) \<and> \<not> m_bEpisodeDone v
        \<and> ControlStep v u = Inr v' \<longrightarrow>
      m_nSteps v' = m_nSteps v + 1
      \<and> m_bEpisodeDone v' =
          (fst (snd (CalculateReward v u)) \<or> sint (m_nMaxSteps v) \<le> sint (m_nSteps v'))"
  proof
    assume h: "sint (m_nEpisode v) < sint (m_nMaxEpisodes v) \<and> \<not> m_bEpisodeDone v
        \<and> ControlStep v u = Inr v'"
    then obtain a s2 where
      "GetActionFromQNetwork (v\<lparr>m_nSteps := m_nSteps v + 1\<rparr>) u (GetState v u) = Inr (a, s2)"
      using ControlStep_running_action by blast
    from ControlStep_running [OF _ _ this] h
    have "m_nSteps v' = m_nSteps v + 1 \<and> m_bEpisodeDone v' =
          (fst (snd (CalculateReward v u)) \<or> sint (m_nMaxSteps v) \<le> sint (m_nSteps v + 1))"
      by auto
    then show "m_nSteps v' = m_nSteps v + 1
      \<and> m_bEpisodeDone v' =
          (fst (snd (CalculateReward v u)) \<or> sint (m_nMaxSteps v) \<le> sint (m_nSteps v'))"
      by simp
  qed
  show ?thesis using run tick add_penalties_values(1,3) by blast
qed

text \<open>
  Two quiet ticks of the disconnected robot with step limit 2: not done after the first,
  done after the second; the accumulated reward is \<open>-0.1f\<close> after the first and twice
  that after the second.
\<close>

theorem C7_step_limit_witness:
  "quiet_ticks (fb\<lparr>m_nMaxSteps := 2\<rparr>) [sensed 1 0 [], sensed 2 0 [0.5]]
   \<and> (case ticks (fb\<lparr>m_nMaxSteps := 2\<rparr>) [sensed 1 0 [], sensed 2 0 [0.5]] of
        Inl e \<Rightarrow> False
      | Inr s' \<Rightarrow> m_bEpisodeDone s' \<and> m_fEpisodeReward s' = - (13421773 / 67108864))
   \<and> (case ticks (fb\<lparr>m_nMaxSteps := 2\<rparr>) [sensed 1 0 []] of
        Inl e \<Rightarrow> False
      | Inr s' \<Rightarrow> \<not> m_bEpisodeDone s' \<and> m_fEpisodeReward s' = - (13421773 / 134217728))"
proof -
  let ?s = "fb\<lparr>m_nMaxSteps := 2\<rparr>"
  let ?t1 = "sensed 1 0 []"
  let ?t2 = "sensed 2 0 [0.5]"
  have run: "sint (m_nEpisode ?s) < sint (m_nMaxEpisodes ?s)" "\<not> m_bEpisodeDone ?s"
    "\<not> m_bConnected ?s"
    by (simp_all add: fb_fields)
  have g1: "\<not> ReachedGoal ?s ?t1"
    by (rule far_from_goal) (simp_all add: fb_fields sensed_fields)
  have "fst (DetectCollision ?s ?t1) = close_obstacle (Readings ?t1)"
    by (rule moved_enough) (simp_all add: fb_fields sensed_fields)
  then have c1: "\<not> fst (DetectCollision ?s ?t1)" by (simp add: sensed_fields)
  have q1: "quiet ?s ?t1" using g1 c1 by (simp add: quiet_def)
  obtain s1 where s1: "ControlStep ?s ?t1 = Inr s1" using offline_step [OF run(3)] by blast
  have f1: "m_cPreviousPosition s1 = \<lparr>GetX = 1, GetY = 0\<rparr>" "m_cGoalPosition s1 = \<lparr>GetX = 18, GetY = 18\<rparr>"
    "m_fGoalThreshold s1 = 1 / 2" "m_fCollisionThreshold s1 = 5368709 / 536870912"
    using s1 g1 unfolding ControlStep_offline [OF run] by (auto simp: fb_fields sensed_fields)
  have g2: "\<not> ReachedGoal s1 ?t2"
    by (rule far_from_goal) (simp_all add: f1 sensed_fields)
  have "fst (DetectCollision s1 ?t2) = close_obstacle (Readings ?t2)"
    by (rule moved_enough) (simp_all add: f1 sensed_fields)
  then have c2: "\<not> fst (DetectCollision s1 ?t2)" by (simp add: sensed_fields float_values)
  have q2: "quiet s1 ?t2" using g2 c2 by (simp add: quiet_def)
  obtain s2 where s2: "ticks ?s [?t1, ?t2] = Inr s2" using offline_ticks [OF run(3)] by blast
  have q: "quiet_ticks ?s [?t1, ?t2]" using q1 q2 s1 by (simp split: sum.splits)
  have h: "m_nSteps ?s = 0 \<and> m_fEpisodeReward ?s = 0 \<and> \<not> m_bEpisodeDone ?s
      \<and> sint (m_nEpisode ?s) < sint (m_nMaxEpisodes ?s)
      \<and> int (length [?t1, ?t2]) = max 1 (sint (m_nMaxSteps ?s))
      \<and> quiet_ticks ?s [?t1, ?t2] \<and> ticks ?s [?t1, ?t2] = Inr s2"
    using q s2 by (simp add: fb_fields)
  have t1: "take 1 [?t1, ?t2] = [?t1]" by simp
  have l2: "length [?t1, ?t2] = 2" by simp
  from C7_step_limit [of ?s "[?t1, ?t2]" s2] h
  have r: "m_bEpisodeDone s2 \<and> m_fEpisodeReward s2 = add_penalties 0 (length [?t1, ?t2])
      \<and> (\<forall>k<length [?t1, ?t2]. \<exists>sk. ticks ?s (take k [?t1, ?t2]) = Inr sk \<and> \<not> m_bEpisodeDone sk
             \<and> sint (m_nEpisode sk) < sint (m_nMaxEpisodes sk)
             \<and> m_fEpisodeReward sk = add_penalties 0 k)"
    by blast
  then have "\<exists>sk. ticks ?s (take 1 [?t1, ?t2]) = Inr sk \<and> \<not> m_bEpisodeDone sk
             \<and> sint (m_nEpisode sk) < sint (m_nMaxEpisodes sk)
             \<and> m_fEpisodeReward sk = add_penalties 0 1"
    by (metis One_nat_def length_Cons lessI list.size(3) less_Suc_eq)
  then obtain sk where sk: "ticks ?s [?t1] = Inr sk" "\<not> m_bEpisodeDone sk"
    "m_fEpisodeReward sk = - (13421773 / 134217728)"
    unfolding t1 add_penalties_values by auto
  have "m_bEpisodeDone s2" "m_fEpisodeReward s2 = - (13421773 / 67108864)"
    using r unfolding l2 add_penalties_values by simp_all
  then show ?thesis using q sk s2 by (simp del: ticks.simps quiet_ticks.simps)
qed

section \<open>Failures of the socket during a tick\<close>

text \<open>
  C8. A disconnected robot answers every action request with \<open>rand() % 4\<close>, one of the
  ids 0, 1, 2, 3; over any range of \<open>4 n\<close> consecutive values of \<open>rand()\<close> starting at
  0 each id is chosen exactly \<open>n\<close> times, so the choice is uniform when \<open>rand()\<close> is
  (the distribution of \<open>rand()\<close> itself is outside the model). A connected robot whose
  state message cannot be sent, or whose reply is empty, gets action 0. In each of these
  cases a running tick completes without an exception: it gives the wheels the command
  of that action, increments the step index, adds the evaluated reward (a \<open>float\<close>
  addition), sets the done
  flag when the evaluation reports done or the step limit is reached, and updates the
  previous position as the evaluation does. Every tick with the same sensor readings
  that completes, whatever its socket calls return, leaves the same episode index, step
  index, accumulated reward, done flag and previous position.
\<close>

theorem C8_io_failures_absorbed:
  "(\<not> m_bConnected s \<longrightarrow>
      GetActionFromQNetwork s t st = Inr (word_of_nat (rand_value t mod 4), s)
      \<and> sint (word_of_nat (rand_value t mod 4) :: cint) \<in> {0, 1, 2, 3}
      \<and> (\<forall>n k. k < 4 \<longrightarrow>
            card {r. r < 4 * n \<and> GetActionFromQNetwork s (t\<lparr>rand_value := r\<rparr>) st
                                      = Inr (word_of_nat k, s)} = n))
   \<and> (m_bConnected s
        \<and> (sint (m_nSocket s) < 0 \<or> send_state t \<le> 0 \<or> received_message (recv_action t) = []) \<longrightarrow>
      (\<exists>s2. GetActionFromQNetwork s t st = Inr (0, s2)))
   \<and> (sint (m_nEpisode s) < sint (m_nMaxEpisodes s) \<and> \<not> m_bEpisodeDone s
        \<and> (\<not> m_bConnected s \<or> sint (m_nSocket s) < 0 \<or> send_state t \<le> 0
             \<or> received_message (recv_action t) = []) \<longrightarrow>
      (\<exists>s'. ControlStep s t = Inr s'
         \<and> wheels s' = wheels (ExecuteAction s
               (if m_bConnected s then 0 else word_of_nat (rand_value t mod 4)))
         \<and> m_nEpisode s' = m_nEpisode s \<and> m_nSteps s' = m_nSteps s + 1
         \<and> m_fEpisodeReward s' = to_float (m_fEpisodeReward s + fst (CalculateReward s t))
         \<and> m_bEpisodeDone s' =
             (fst (snd (CalculateReward s t)) \<or> sint (m_nMaxSteps s) \<le> sint (m_nSteps s + 1))
         \<and> m_cPreviousPosition s' =
             (if ReachedGoal s t then m_cPreviousPosition s else Position t)
         \<and> (\<forall>u s''. Position u = Position t \<and> Readings u = Readings t
                \<and> ControlStep s u = Inr s'' \<longrightarrow>
              m_nEpisode s'' = m_nEpisode s' \<and> m_nSteps s'' = m_nSteps s'
              \<and> m_fEpisodeReward s'' = m_fEpisodeReward s'
              \<and> m_bEpisodeDone s'' = m_bEpisodeDone s'
              \<and> m_cPreviousPosition s'' = m_cPreviousPosition s')))"
proof (intro conjI impI)
  assume "\<not> m_bConnected s"
  then show "GetActionFromQNetwork s t st = Inr (word_of_nat (rand_value t mod 4), s)"
    by (rule GetAction_offline)
next
  show "sint (word_of_nat (rand_value t mod 4) :: cint) \<in> {0, 1, 2, 3}"
    by (rule rand_action_range)
next
  assume "\<not> m_bConnected s"
  then show "\<forall>n k. k < 4 \<longrightarrow>
            card {r. r < 4 * n \<and> GetActionFromQNetwork s (t\<lparr>rand_value := r\<rparr>) st
                                      = Inr (word_of_nat k, s)} = n"
    using offline_actions_equally_often by blast
next
  assume "m_bConnected s
        \<and> (sint (m_nSocket s) < 0 \<or> send_state t \<le> 0 \<or> received_message (recv_action t) = [])"
  then show "\<exists>s2. GetActionFromQNetwork s t st = Inr (0, s2)"
    using GetAction_send_failed GetAction_empty_reply by blast
next
  assume h: "sint (m_nEpisode s) < sint (m_nMaxEpisodes s) \<and> \<not> m_bEpisodeDone s
        \<and> (\<not> m_bConnected s \<or> sint (m_nSocket s) < 0 \<or> send_state t \<le> 0
             \<or> received_message (recv_action t) = [])"
  then have run: "sint (m_nEpisode s) < sint (m_nMaxEpisodes s)" "\<not> m_bEpisodeDone s"
    by simp_all
  let ?s1 = "s\<lparr>m_nSteps := m_nSteps s + 1\<rparr>"
  let ?a = "if m_bConnected s then 0 else word_of_nat (rand_value t mod 4) :: cint"
  have "\<exists>s2. GetActionFromQNetwork ?s1 t (GetState s t) = Inr (?a, s2)"
  proof (cases "m_bConnected s")
    case True
    then have "m_bConnected ?s1"
      and "sint (m_nSocket ?s1) < 0 \<or> send_state t \<le> 0 \<or> received_message (recv_action t) = []"
      using h by simp_all
    then show ?thesis
      using True GetAction_send_failed [of ?s1 t] GetAction_empty_reply [of ?s1 t] by auto
  next
    case False
    then show ?thesis by (simp add: GetAction_offline)
  qed
  then obtain s2 where a: "GetActionFromQNetwork ?s1 t (GetState s t) = Inr (?a, s2)" by blast
  note cs = ControlStep_running [OF run a]
  then obtain s' where s': "ControlStep s t = Inr s'" by blast
  have w: "wheels s' = wheels (ExecuteAction s ?a)" using cs s' by auto
  note b = running_bookkeeping [OF run s']
  have same: "m_nEpisode s'' = m_nEpisode s' \<and> m_nSteps s'' = m_nSteps s'
              \<and> m_fEpisodeReward s'' = m_fEpisodeReward s'
              \<and> m_bEpisodeDone s'' = m_bEpisodeDone s'
              \<and> m_cPreviousPosition s'' = m_cPreviousPosition s'"
    if u: "Position u = Position t \<and> Readings u = Readings t \<and> ControlStep s u = Inr s''"
    for u s''
  proof -
    from u have cu: "ControlStep s u = Inr s''" by simp
    from same_sensing [of u t s] u running_bookkeeping [OF run cu] b show ?thesis by simp
  qed
  show "\<exists>s'. ControlStep s t = Inr s'
         \<and> wheels s' = wheels (ExecuteAction s
               (if m_bConnected s then 0 else word_of_nat (rand_value t mod 4)))
         \<and> m_nEpisode s' = m_nEpisode s \<and> m_nSteps s' = m_nSteps s + 1
         \<and> m_fEpisodeReward s' = to_float (m_fEpisodeReward s + fst (CalculateReward s t))
         \<and> m_bEpisodeDone s' =
             (fst (snd (CalculateReward s t)) \<or> sint (m_nMaxSteps s) \<le> sint (m_nSteps s + 1))
         \<and> m_cPreviousPosition s' =
             (if ReachedGoal s t then m_cPreviousPosition s else Position t)
         \<and> (\<forall>u s''. Position u = Position t \<and> Readings u = Readings t
                \<and> ControlStep s u = Inr s'' \<longrightarrow>
              m_nEpisode s'' = m_nEpisode s' \<and> m_nSteps s'' = m_nSteps s'
              \<and> m_fEpisodeReward s'' = m_fEpisodeReward s'
              \<and> m_bEpisodeDone s'' = m_bEpisodeDone s'
              \<and> m_cPreviousPosition s'' = m_cPreviousPosition s')"
    apply (rule exI [of _ s'])
    using s' w b same by blast
qed

text \<open>
  The disconnected robot (\<open>rand()\<close> returns 6, action 2), and the connected robot with a
  failing \<open>send\<close> and with an empty reply (action 0). The velocity is \<open>0.1f\<close>, the reward
  of the tick \<open>-0.1f\<close>.
\<close>

theorem C8_io_failures_absorbed_witness:
  "GetActionFromQNetwork fb (sensed 1 0 []) [] = Inr (2, fb)
   \<and> (\<exists>s2. GetActionFromQNetwork fb_online (sensed 1 0 []) [] = Inr (0, s2))
   \<and> (\<exists>s2. GetActionFromQNetwork fb_online ((sensed 1 0 [])\<lparr>send_state := 1\<rparr>) [] = Inr (0, s2))
   \<and> (\<exists>s'. ControlStep fb (sensed 1 0 []) = Inr s'
         \<and> wheels s' = [(13421773 / 268435456, - (13421773 / 268435456))] \<and> m_nSteps s' = 1
         \<and> m_fEpisodeReward s' = - (13421773 / 134217728)
         \<and> \<not> m_bEpisodeDone s' \<and> m_cPreviousPosition s' = \<lparr>GetX = 1, GetY = 0\<rparr>)
   \<and> (\<exists>s'. ControlStep fb_online (sensed 1 0 []) = Inr s'
         \<and> wheels s' = [(13421773 / 134217728, 13421773 / 134217728)] \<and> m_nSteps s' = 1
         \<and> m_fEpisodeReward s' = - (13421773 / 134217728)
         \<and> \<not> m_bEpisodeDone s' \<and> m_cPreviousPosition s' = \<lparr>GetX = 1, GetY = 0\<rparr>)"
proof -
  let ?t = "sensed 1 0 []"
  have off: "\<not> m_bConnected fb" and on: "m_bConnected fb_online"
    by (simp_all add: fb_fields fb_online_fields)
  have fail: "send_state ?t \<le> 0" by (simp add: sensed_fields)
  have empty: "received_message (recv_action (?t\<lparr>send_state := 1\<rparr>)) = []"
    by (simp add: sensed_fields received_message_def)
  have run: "sint (m_nEpisode fb) < sint (m_nMaxEpisodes fb)" "\<not> m_bEpisodeDone fb"
    "sint (m_nEpisode fb_online) < sint (m_nMaxEpisodes fb_online)" "\<not> m_bEpisodeDone fb_online"
    by (simp_all add: fb_fields fb_online_fields)
  have g: "\<not> ReachedGoal fb ?t" "\<not> ReachedGoal fb_online ?t"
    by (rule far_from_goal; simp add: fb_fields fb_online_fields sensed_fields)+
  have "fst (DetectCollision fb ?t) = close_obstacle (Readings ?t)"
    "fst (DetectCollision fb_online ?t) = close_obstacle (Readings ?t)"
    by (rule moved_enough; simp add: fb_fields fb_online_fields sensed_fields)+
  then have c: "\<not> fst (DetectCollision fb ?t)" "\<not> fst (DetectCollision fb_online ?t)"
    by (simp_all add: sensed_fields)
  have r: "fst (CalculateReward fb ?t) = - (13421773 / 134217728)"
    "\<not> fst (snd (CalculateReward fb ?t))"
    "fst (CalculateReward fb_online ?t) = - (13421773 / 134217728)"
    "\<not> fst (snd (CalculateReward fb_online ?t))"
    using g c by (simp_all add: CalculateReward_alt float_values)
  have v: "rand_value ?t mod 4 = 2" "m_nSteps fb = 0" "m_nSteps fb_online = 0"
    "m_fEpisodeReward fb = 0" "m_fEpisodeReward fb_online = 0"
    "sint (m_nMaxSteps fb) = 500" "sint (m_nMaxSteps fb_online) = 500"
    "Position ?t = \<lparr>GetX = 1, GetY = 0\<rparr>"
    "wheels (ExecuteAction fb 2) = [(13421773 / 268435456, - (13421773 / 268435456))]"
    "wheels (ExecuteAction fb_online 0) = [(13421773 / 134217728, 13421773 / 134217728)]"
    by (simp_all add: fb_fields fb_online_fields sensed_fields ExecuteAction_def
        SetLinearVelocity_def Let_def)
  show ?thesis
    using C8_io_failures_absorbed [of fb ?t "[]"] C8_io_failures_absorbed [of fb_online ?t "[]"]
      C8_io_failures_absorbed [of fb_online "?t\<lparr>send_state := 1\<rparr>" "[]"]
      off on fail empty run g r
    by (simp add: v penalty_steps) blast
qed

section \<open>Malformed replies and the id read off the name\<close>

text \<open>
  C3. The claim says a reply whose text after the first bar is no integer yields action
  0 and never an error. The code returns 0 only when the bar is missing; otherwise it
  calls \<open>std::stoi\<close> unguarded. For the replies \<open>ACTION|abc\<close> and \<open>ACTION|\<close> the
  action request, and with it the control step, ends with \<open>invalid_argument\<close>; for
  \<open>ACTION|99999999999\<close> with \<open>out_of_range\<close>.
\<close>

theorem C3_unparseable_reply_raises:
  "GetActionFromQNetwork fb_online (answered 1 0 [] ''ACTION|abc'')
     (GetState fb_online (answered 1 0 [] ''ACTION|abc'')) = Inl invalid_argument
   \<and> ControlStep fb_online (answered 1 0 [] ''ACTION|abc'') = Inl invalid_argument
   \<and> ControlStep fb_online (answered 1 0 [] ''ACTION|'') = Inl invalid_argument
   \<and> ControlStep fb_online (answered 1 0 [] ''ACTION|99999999999'') = Inl out_of_range"
proof -
  have run: "sint (m_nEpisode fb_online) < sint (m_nMaxEpisodes fb_online)"
    "\<not> m_bEpisodeDone fb_online"
    by (simp_all add: examples)
  have a: "GetActionFromQNetwork (fb_online\<lparr>m_nSteps := n\<rparr>) (answered 1 0 [] ''ACTION|abc'') st
             = Inl invalid_argument" for n st
    by (simp add: examples evaluation)
  have b: "GetActionFromQNetwork (fb_online\<lparr>m_nSteps := n\<rparr>) (answered 1 0 [] ''ACTION|'') st
             = Inl invalid_argument" for n st
    by (simp add: examples evaluation)
  have c: "GetActionFromQNetwork (fb_online\<lparr>m_nSteps := n\<rparr>)
             (answered 1 0 [] ''ACTION|99999999999'') st = Inl out_of_range" for n st
    by (simp add: examples evaluation)
  have a0: "GetActionFromQNetwork fb_online (answered 1 0 [] ''ACTION|abc'') st
             = Inl invalid_argument" for st
    by (simp add: examples evaluation)
  show ?thesis
    using a0 ControlStep_raises [OF run a] ControlStep_raises [OF run b]
      ControlStep_raises [OF run c]
    by simp
qed

text \<open>
  C4. The claim says the id is the number formed by the trailing digits of the name, 12
  for a name ending in 12. The code takes the substring from the last digit on, so the id
  is that single digit: the robot named fb12 gets id 2.
\<close>

theorem C4_last_digit_only:
  "(case robot_id QSwarmController ''fb12'' of
      Inl e \<Rightarrow> False
    | Inr s \<Rightarrow> m_nRobotIdNum s = 2)
   \<and> (case Init QSwarmController ''fb12''
             \<lparr>goal_x = None, goal_y = None, velocity = None, max_steps = None, max_episodes = None\<rparr>
             True (sensed 0 0 []) \<lparr>socket_ret = 5, connect_ret = (\<lambda>i. 0)\<rparr> of
        Inl e \<Rightarrow> False
      | Inr s \<Rightarrow> m_nRobotIdNum s = 2 \<and> m_bConnected s)
   \<and> (case Init QSwarmController ''fb12''
             \<lparr>goal_x = None, goal_y = None, velocity = None, max_steps = None, max_episodes = None\<rparr>
             False (sensed 0 0 []) \<lparr>socket_ret = 5, connect_ret = (\<lambda>i. 0)\<rparr> of
        Inl e \<Rightarrow> False
      | Inr s \<Rightarrow> m_nRobotIdNum s = 2 \<and> m_bConnected s)"
  by (simp add: Init_def robot_id_def ConnectToQNetwork_def QSwarmController_def evaluation
      connect_retry_first)

end
